theory Spec2Isabelle
  imports Complex_Main "HOL-Library.Stream"
begin

section \<open>Numbers and the random source\<close>

text \<open>
  A JavaScript \<open>number\<close> is modelled as a real number: the arithmetic of the simulation is
  the exact one, without the rounding of IEEE doubles and without NaN. Values that the
  code obtains from \<open>Math.floor\<close>, \<open>Math.ceil\<close> or \<open>Math.round\<close> and uses as counters are
  integers (\<open>int\<close>).

  \<open>Math.random()\<close> is the only source of effects besides the mutation of the clump: it is
  modelled as a stream of reals, each call taking the head and leaving the tail.
\<close>

type_synonym rng = "real stream"

definition Math_random :: "rng \<Rightarrow> real \<times> rng" where
  "Math_random rs = (shd rs, stl rs)"

text \<open>\<open>Math.round\<close> rounds to the nearest integer, a tie towards plus infinity.\<close>

definition Math_round :: "real \<Rightarrow> int" where
  "Math_round v = \<lfloor>v + 1 / 2\<rfloor>"

text \<open>
  \<open>v.toFixed(1)\<close> followed by \<open>parseFloat\<close>: the nearest multiple of a tenth, a tie taken
  to the larger magnitude, the sign kept.
\<close>

definition toFixed1 :: "real \<Rightarrow> real" where
  "toFixed1 v =
     (if v < 0 then - (real_of_int \<lfloor>(- v) * 10 + 1 / 2\<rfloor> / 10)
      else real_of_int \<lfloor>v * 10 + 1 / 2\<rfloor> / 10)"

section \<open>The schematic engine: \<open>BambooClump\<close>\<close>

subsection \<open>Data\<close>

datatype Color = RGB real real real | HSL real real real

record Material =
  color :: Color
  roughness :: real
  metalness :: real
  opacity :: real
  transparent :: bool

text \<open>
  A pole's mesh: its position in the clump (\<open>y\<close> is always 0), the parameters of its
  \<open>CylinderGeometry\<close>, its vertical scale, its tilt and its material.
\<close>

record Mesh =
  position_x :: real
  position_z :: real
  geometry_radiusTop :: real
  geometry_radiusBottom :: real
  geometry_height :: real
  scale_y :: real
  rotation_x :: real
  rotation_z :: real
  material :: Material

record BambooPole =
  mesh :: Mesh
  targetHeight :: real
  currentHeight :: real
  ageInYears :: real
  isHarvested :: bool
  growthFactor :: real

text \<open>
  The fields of the class \<open>BambooClump\<close> that the simulation reads and writes. The field
  \<open>targetHeight\<close> of the clump is \<open>clumpTargetHeight\<close> here, the name being taken by the
  pole's field. The scene-graph fields (\<open>container\<close>, \<open>position\<close>, \<open>rhizomeMesh\<close>) carry no
  simulation state.
\<close>

record BambooClump =
  poles :: "BambooPole list"
  maxPoles :: real
  currentPoles :: int
  harvestedPoles :: int
  clumpTargetHeight :: real
  growthProgress :: real

record GrowthResult =
  height :: real
  poleCount :: int
  carbon :: real

text \<open>An entry of the local array \<open>existingPositions\<close> of \<open>addNewPoles\<close>.\<close>

record ExistingPosition =
  ep_x :: real
  ep_z :: real
  ep_radius :: real

subsection \<open>Growth curve and carbon\<close>

definition calculateHeight :: "real \<Rightarrow> real" where
  "calculateHeight progress =
     (let maxHeight = 2.55; minHeight = 0.5; growthRate = 15; midpoint = 0.3
      in minHeight + (maxHeight - minHeight) / (1 + exp (- growthRate * (progress - midpoint))))"

definition calculatePoleCount :: "BambooClump \<Rightarrow> real \<Rightarrow> int" where
  "calculatePoleCount this progress =
     (let minPoles = 5; growthRate = 15; midpoint = 0.3
      in \<lfloor>minPoles + (maxPoles this - minPoles) / (1 + exp (- growthRate * (progress - midpoint)))\<rfloor>)"

definition calculateCarbon :: "real \<Rightarrow> real \<Rightarrow> real" where
  "calculateCarbon h pc = toFixed1 ((h / 27) * (pc / 90) * 87.5)"

subsection \<open>\<open>addNewPoles\<close>\<close>

definition maxAttempts :: nat where
  "maxAttempts = 100"

text \<open>
  The exclusion circle that \<open>addNewPoles\<close> derives for a pole already in the clump:
  its position and 1.2 times the bottom radius of its cylinder.
\<close>

definition existingPositionOf :: "BambooPole \<Rightarrow> ExistingPosition" where
  "existingPositionOf pole =
     \<lparr>ep_x = position_x (mesh pole), ep_z = position_z (mesh pole),
      ep_radius = geometry_radiusBottom (mesh pole) * 1.2\<rparr>"

definition initialExistingPositions :: "BambooPole list \<Rightarrow> ExistingPosition list" where
  "initialExistingPositions ps = map existingPositionOf (filter (\<lambda>pole. \<not> isHarvested pole) ps)"

text \<open>The local variables \<open>validPosition\<close>, \<open>x\<close>, \<open>z\<close> and \<open>thickness\<close> of one iteration.\<close>

record Candidate =
  validPosition :: bool
  cand_x :: real
  cand_z :: real
  cand_thickness :: real

definition tooClose :: "real \<Rightarrow> real \<Rightarrow> real \<Rightarrow> ExistingPosition \<Rightarrow> bool" where
  "tooClose x z thickness pos =
     (let dx = x - ep_x pos; dz = z - ep_z pos; distance = sqrt (dx * dx + dz * dz)
      in distance < thickness + ep_radius pos)"

text \<open>One pass through the body of the \<open>while\<close> loop: four draws and the overlap test.\<close>

definition drawCandidate :: "ExistingPosition list \<Rightarrow> rng \<Rightarrow> Candidate \<times> rng" where
  "drawCandidate existingPositions rs0 =
     (let (r0, rs1) = Math_random rs0;
          (r1, rs2) = Math_random rs1;
          radius = (if r0 < 0.3 then r1 * 0.6 else 0.8 + r1 * 1.0);
          (r2, rs3) = Math_random rs2;
          angle = r2 * pi * 2;
          x = cos angle * radius;
          z = sin angle * radius;
          (r3, rs4) = Math_random rs3;
          thickness = (if radius < 0.6 then 0.06 + r3 * 0.04 else 0.12 + r3 * 0.06)
      in (\<lparr>validPosition = \<not> list_ex (tooClose x z thickness) existingPositions,
           cand_x = x, cand_z = z, cand_thickness = thickness\<rparr>, rs4))"

text \<open>
  The \<open>while\<close> loop: it runs while no valid position is found and the counter is below
  \<open>maxAttempts\<close>. The counter is a variable of the whole call, so it is passed in and
  returned.
\<close>

function placeWhile ::
  "ExistingPosition list \<Rightarrow> Candidate \<Rightarrow> nat \<Rightarrow> rng \<Rightarrow> Candidate \<times> nat \<times> rng" where
  "placeWhile existingPositions c attemptsCounter rs =
     (if \<not> validPosition c \<and> attemptsCounter < maxAttempts
      then placeWhile existingPositions (fst (drawCandidate existingPositions rs))
             (attemptsCounter + 1) (snd (drawCandidate existingPositions rs))
      else (c, attemptsCounter, rs))"
  by pat_completeness auto
termination
  by (relation "measure (\<lambda>(existingPositions, c, attemptsCounter, rs). maxAttempts - attemptsCounter)")
    auto

declare placeWhile.simps [simp del]

text \<open>
  What follows an accepted position: eleven further draws, in the order of evaluation
  of the source, and the new pole.
\<close>

definition normalize2 :: "real \<Rightarrow> real \<Rightarrow> real \<times> real" where
  "normalize2 x z =
     (let len = sqrt (x * x + z * z); d = (if len = 0 then 1 else len) in (x / d, z / d))"

definition makePole :: "real \<Rightarrow> real \<Rightarrow> real \<Rightarrow> rng \<Rightarrow> BambooPole \<times> rng" where
  "makePole x z thickness rs0 =
     (let (r0, rs1) = Math_random rs0;
          heightVariation = 30 + r0 * 25;
          h = heightVariation;
          (r1, rs2) = Math_random rs1;
          topThinning = 0.7 + r1 * 0.4;
          (r2, rs3) = Math_random rs2;
          (r3, rs4) = Math_random rs3;
          (r4, rs5) = Math_random rs4;
          (r5, rs6) = Math_random rs5;
          (r6, rs7) = Math_random rs6;
          (r7, rs8) = Math_random rs7;
          poleMaterial = \<lparr>color = RGB (0.02 + r3 * 0.02) (0.15 + r4 * 0.1) (0.01 + r5 * 0.03),
                          roughness = 0.6 + r6 * 0.3, metalness = 0.05 + r7 * 0.1,
                          opacity = 1, transparent = False\<rparr>;
          tiltAngle = pi * 0.02;
          (ox, oy) = normalize2 x z;
          (r8, rs9) = Math_random rs8;
          (r9, rs10) = Math_random rs9;
          pole = \<lparr>position_x = x, position_z = z,
                  geometry_radiusTop = thickness * topThinning,
                  geometry_radiusBottom = thickness * (1.1 + r2 * 0.2),
                  geometry_height = h,
                  scale_y = 0.01,
                  rotation_x = (oy * 0.01) + (r8 - 0.5) * tiltAngle,
                  rotation_z = (- ox * 0.01) + (r9 - 0.5) * tiltAngle,
                  material = poleMaterial\<rparr>;
          (r10, rs11) = Math_random rs10;
          growthRateFactor = 1.2 + r10 * 0.4
      in (\<lparr>mesh = pole, targetHeight = h, currentHeight = 0.5, ageInYears = 0,
           isHarvested = False, growthFactor = growthRateFactor\<rparr>, rs11))"

text \<open>
  The state of the \<open>for\<close> loop: the array \<open>existingPositions\<close>, the poles of the clump, the
  attempts counter and the random source.
\<close>

record PlaceState =
  ps_existing :: "ExistingPosition list"
  ps_poles :: "BambooPole list"
  ps_attempts :: nat
  ps_rng :: rng

definition initialCandidate :: Candidate where
  "initialCandidate = \<lparr>validPosition = False, cand_x = 0, cand_z = 0, cand_thickness = 0\<rparr>"

definition placeOne :: "PlaceState \<Rightarrow> PlaceState" where
  "placeOne s =
     (let (c, attemptsCounter, rs1) =
            placeWhile (ps_existing s) initialCandidate (ps_attempts s) (ps_rng s)
      in if \<not> validPosition c
         then s\<lparr>ps_attempts := attemptsCounter, ps_rng := rs1\<rparr>
         else (let (poleObject, rs2) = makePole (cand_x c) (cand_z c) (cand_thickness c) rs1
               in \<lparr>ps_existing = ps_existing s @
                      [\<lparr>ep_x = cand_x c, ep_z = cand_z c, ep_radius = cand_thickness c * 1.2\<rparr>],
                   ps_poles = ps_poles s @ [poleObject],
                   ps_attempts = attemptsCounter,
                   ps_rng = rs2\<rparr>))"

fun placeFor :: "nat \<Rightarrow> PlaceState \<Rightarrow> PlaceState" where
  "placeFor 0 s = s"
| "placeFor (Suc n) s = placeFor n (placeOne s)"

definition placeAll :: "int \<Rightarrow> BambooClump \<Rightarrow> rng \<Rightarrow> PlaceState" where
  "placeAll count this rs =
     placeFor (nat count)
       \<lparr>ps_existing = initialExistingPositions (poles this), ps_poles = poles this,
        ps_attempts = 0, ps_rng = rs\<rparr>"

definition addNewPoles :: "int \<Rightarrow> BambooClump \<Rightarrow> rng \<Rightarrow> BambooClump \<times> rng" where
  "addNewPoles count this rs =
     (let s = placeAll count this rs
      in (this\<lparr>poles := ps_poles s, currentPoles := currentPoles this + count\<rparr>, ps_rng s))"

subsection \<open>\<open>harvestMaturePoles\<close>\<close>

text \<open>
  The poles are objects shared between \<open>this.poles\<close> and the filtered, sorted array, so
  the filtered array is modelled by the indices of its poles in \<open>this.poles\<close>. The sort of
  the array is stable; \<open>sort_key\<close> is, too.
\<close>

definition maturePoles :: "BambooPole list \<Rightarrow> nat list" where
  "maturePoles ps =
     filter (\<lambda>i. ageInYears (ps ! i) \<ge> 3 \<and> \<not> isHarvested (ps ! i)) [0..<length ps]"

definition polesToHarvest :: "BambooPole list \<Rightarrow> nat" where
  "polesToHarvest ps = nat \<lceil>real (length (maturePoles ps)) * 0.2\<rceil>"

definition harvestOrder :: "BambooPole list \<Rightarrow> nat list" where
  "harvestOrder ps = sort_key (\<lambda>i. - ageInYears (ps ! i)) (maturePoles ps)"

definition harvestChosen :: "BambooPole list \<Rightarrow> nat list" where
  "harvestChosen ps = take (polesToHarvest ps) (harvestOrder ps)"

definition markHarvested :: "BambooPole \<Rightarrow> BambooPole" where
  "markHarvested pole =
     pole\<lparr>isHarvested := True,
          mesh := (mesh pole)\<lparr>material := (material (mesh pole))\<lparr>opacity := 0.3, transparent := True\<rparr>\<rparr>\<rparr>"

definition harvestMaturePoles :: "real \<Rightarrow> BambooClump \<Rightarrow> BambooClump" where
  "harvestMaturePoles gp this =
     (if gp < 0.3 then this
      else if polesToHarvest (poles this) = 0 then this
      else this\<lparr>poles := map (\<lambda>i. if i \<in> set (harvestChosen (poles this))
                                    then markHarvested (poles this ! i) else poles this ! i)
                              [0..<length (poles this)],
                harvestedPoles := harvestedPoles this + int (length (harvestChosen (poles this)))\<rparr>)"

subsection \<open>\<open>update\<close> and the constructor\<close>

definition updatePole :: "real \<Rightarrow> real \<Rightarrow> BambooPole \<Rightarrow> rng \<Rightarrow> BambooPole \<times> rng" where
  "updatePole gp th pole0 rs0 =
     (let pole = pole0\<lparr>ageInYears := gp * 10\<rparr>
      in if isHarvested pole then (pole, rs0)
         else (let normalizedHeight = (th - 0.5) / (4.5 - 0.5);
                   individualGrowth =
                     normalizedHeight * (if growthFactor pole = 0 then 1.0 else growthFactor pole);
                   scaleY = min 0.99 (max 0.01 (individualGrowth * 0.99 + 0.01));
                   maturityFactor = min (ageInYears pole / 5) 1;
                   (r0, rs1) = Math_random rs0;
                   hue = 0.25 + (0.08 + r0 * 0.04) * maturityFactor;
                   (r1, rs2) = Math_random rs1;
                   saturation = 0.8 - (0.25 + r1 * 0.1) * maturityFactor;
                   (r2, rs3) = Math_random rs2;
                   lightness = 0.45 + r2 * 0.1
               in (pole\<lparr>currentHeight := targetHeight pole * scaleY,
                        mesh := (mesh pole)\<lparr>scale_y := scaleY,
                                  material := (material (mesh pole))\<lparr>color := HSL hue saturation lightness\<rparr>\<rparr>\<rparr>,
                   rs3)))"

fun updatePoles :: "real \<Rightarrow> real \<Rightarrow> BambooPole list \<Rightarrow> rng \<Rightarrow> BambooPole list \<times> rng" where
  "updatePoles gp th [] rs = ([], rs)"
| "updatePoles gp th (pole # ps) rs =
     (let (pole', rs1) = updatePole gp th pole rs;
          (ps', rs2) = updatePoles gp th ps rs1
      in (pole' # ps', rs2))"

definition clampProgress :: "real \<Rightarrow> real" where
  "clampProgress p = max 0 (min 1 p)"

text \<open>
  The body of \<open>update\<close> is four blocks run in sequence, each given its own definition:
  the new targets and the poles that are missing, the harvest that a draw may trigger,
  the pass over the poles, and the returned figures.
\<close>

definition update_grow :: "real \<Rightarrow> BambooClump \<Rightarrow> rng \<Rightarrow> BambooClump \<times> rng" where
  "update_grow p this0 rs =
     (let gp = clampProgress p;
          this1 = this0\<lparr>growthProgress := gp, clumpTargetHeight := calculateHeight gp\<rparr>;
          targetPoles = calculatePoleCount this1 gp
      in if targetPoles > currentPoles this1
         then addNewPoles (targetPoles - currentPoles this1) this1 rs
         else (this1, rs))"

definition update_harvest :: "BambooClump \<Rightarrow> rng \<Rightarrow> BambooClump \<times> rng" where
  "update_harvest this rs =
     (let (r, rs1) = Math_random rs
      in (if r < 0.02 \<and> growthProgress this > 0.5
          then harvestMaturePoles (growthProgress this) this else this, rs1))"

definition update_poles :: "BambooClump \<Rightarrow> rng \<Rightarrow> BambooClump \<times> rng" where
  "update_poles this rs =
     (let (ps, rs1) = updatePoles (growthProgress this) (clumpTargetHeight this) (poles this) rs
      in (this\<lparr>poles := ps\<rparr>, rs1))"

definition update_result :: "BambooClump \<Rightarrow> GrowthResult" where
  "update_result this =
     (let finalHeight = max 0.5 (clumpTargetHeight this);
          finalPoleCount = max 5 (currentPoles this - harvestedPoles this);
          finalCarbon = max 0 (calculateCarbon finalHeight (real_of_int finalPoleCount))
      in \<lparr>height = finalHeight, poleCount = finalPoleCount, carbon = finalCarbon\<rparr>)"

definition update :: "real \<Rightarrow> BambooClump \<Rightarrow> rng \<Rightarrow> GrowthResult \<times> BambooClump \<times> rng" where
  "update p this0 rs0 =
     (let (this1, rs1) = update_grow p this0 rs0;
          (this2, rs2) = update_harvest this1 rs1;
          (this3, rs3) = update_poles this2 rs2
      in (update_result this3, this3, rs3))"

text \<open>The field initialisers of the class, before the constructor body runs.\<close>

definition emptyClump :: BambooClump where
  "emptyClump = \<lparr>poles = [], maxPoles = 100, currentPoles = 0, harvestedPoles = 0,
                 clumpTargetHeight = 0.5, growthProgress = 0\<rparr>"

definition newBambooClump :: "rng \<Rightarrow> BambooClump \<times> rng" where
  "newBambooClump rs = addNewPoles 5 emptyClump rs"

section \<open>The geo-referenced renderer: \<open>addBambooPlants\<close>\<close>

text \<open>
  A row of the table \<open>plots\<close>, as the components receive it. The timestamps and the
  JSON column \<open>boundaries\<close> are left out: no computation reads them. The column \<open>id\<close> is
  \<open>plot_id\<close> here.
\<close>

record Plot =
  plot_id :: string
  name :: string
  stewardId :: "string option"
  projectId :: "string option"
  latitude :: real
  longitude :: real
  areaHectares :: real
  clumpCount :: "int option"
  status :: string
  healthScore :: "int option"
  carbonTons :: "real option"

definition seededRandom :: "real \<Rightarrow> real" where
  "seededRandom seed = (let x = sin (seed * 9999) * 10000 in x - real_of_int \<lfloor>x\<rfloor>)"

text \<open>The entities that \<open>addBambooPlants\<close> adds to the viewer, in order.\<close>

record PoleEntity =
  pole_lng :: real
  pole_lat :: real
  pole_length :: real
  pole_topRadius :: real
  pole_bottomRadius :: real
  pole_color :: "real \<times> real \<times> real \<times> real"

datatype Entity = ClumpMound real real | PoleCylinder PoleEntity

definition geoProgress :: "real \<Rightarrow> real" where
  "geoProgress year = max 0 (min 1 ((year - 2024) / 11))"

definition baseHeight :: "real \<Rightarrow> real" where
  "baseHeight p =
     (let maxHeight = 25; minHeight = 0.5; growthRate = 15; midpoint = 0.3
      in minHeight + (maxHeight - minHeight) / (1 + exp (- growthRate * (p - midpoint))))"

definition poleCountPerClump :: "real \<Rightarrow> int" where
  "poleCountPerClump p =
     (let minPoles = 5; maxPoles = 50
      in \<lfloor>minPoles + (maxPoles - minPoles) / (1 + exp (- 15 * (p - 0.3)))\<rfloor>)"

definition geoPole :: "real \<Rightarrow> real \<Rightarrow> real \<Rightarrow> real \<Rightarrow> nat \<Rightarrow> Entity" where
  "geoPole p clumpSeed clumpLat clumpLng k =
     (let poleSeed = clumpSeed + real k * 10;
          isCenter = (seededRandom poleSeed < 0.3);
          poleRadius = (if isCenter then seededRandom (poleSeed + 1) * 0.4
                        else 0.5 + seededRandom (poleSeed + 1) * 1.0);
          poleAngle = seededRandom (poleSeed + 2) * pi * 2;
          poleOffsetX = cos poleAngle * poleRadius;
          poleOffsetZ = sin poleAngle * poleRadius;
          poleOffsetLat = poleOffsetZ / 111320;
          poleOffsetLng = poleOffsetX / (111320 * cos (clumpLat * pi / 180));
          poleLat = clumpLat + poleOffsetLat;
          poleLng = clumpLng + poleOffsetLng;
          heightVariation = 0.7 + seededRandom (poleSeed + 3) * 0.5;
          poleHeight = baseHeight p * heightVariation;
          thicknessRandom = seededRandom (poleSeed + 4);
          thickness = 0.06 + thicknessRandom * 0.08 + p * 0.06;
          maturityFactor = min (p * 2) 1;
          hue = 0.28 + maturityFactor * 0.05;
          saturation = 0.7 - maturityFactor * 0.15;
          lightnessRandom = seededRandom (poleSeed + 5);
          lightness = 0.35 + lightnessRandom * 0.1;
          r = real_of_int \<lfloor>(1 - saturation + saturation * max 0 (\<bar>hue * 6 - 3\<bar> - 1)) * lightness * 255\<rfloor>;
          g = real_of_int \<lfloor>(1 - saturation + saturation * max 0 (2 - \<bar>hue * 6 - 2\<bar>)) * lightness * 255 * 1.4\<rfloor>;
          b = real_of_int \<lfloor>(1 - saturation + saturation * max 0 (2 - \<bar>hue * 6 - 4\<bar>)) * lightness * 255 * 0.5\<rfloor>
      in PoleCylinder
           \<lparr>pole_lng = poleLng, pole_lat = poleLat, pole_length = poleHeight,
            pole_topRadius = thickness * 0.7, pole_bottomRadius = thickness,
            pole_color = (min 1 (r / 255), min 1 (g / 255), min 1 (b / 255), 1)\<rparr>)"

definition geoClump :: "Plot \<Rightarrow> real \<Rightarrow> int \<Rightarrow> nat \<Rightarrow> Entity list" where
  "geoClump plot p visibleGridSize i =
     (let plotSeed = \<bar>latitude plot * 1000 + longitude plot * 1000\<bar>;
          clumpSpacing = 8;
          gridExtent = real_of_int (visibleGridSize - 1) * clumpSpacing;
          gridOffset = gridExtent / 2;
          row = int i div visibleGridSize;
          col = int i mod visibleGridSize;
          clumpSeed = plotSeed + real i * 100;
          jitterX = (seededRandom clumpSeed - 0.5) * 2;
          jitterZ = (seededRandom (clumpSeed + 1) - 0.5) * 2;
          offsetX = - gridOffset + real_of_int col * clumpSpacing + jitterX;
          offsetZ = - gridOffset + real_of_int row * clumpSpacing + jitterZ;
          offsetLat = offsetZ / 111320;
          offsetLng = offsetX / (111320 * cos (latitude plot * pi / 180));
          clumpLat = latitude plot + offsetLat;
          clumpLng = longitude plot + offsetLng;
          polesInThisClump = min (poleCountPerClump p) 12
      in ClumpMound clumpLng clumpLat #
         map (geoPole p clumpSeed clumpLat clumpLng) [0..<nat polesInThisClump])"

text \<open>
  For a negative area \<open>Math.sqrt\<close> yields NaN, which makes \<open>visibleClumps\<close> NaN and the
  loop condition false at once: nothing is added.
\<close>

definition addBambooPlants :: "Plot \<Rightarrow> real \<Rightarrow> Entity list" where
  "addBambooPlants plot year =
     (if areaHectares plot < 0 then []
      else (let p = geoProgress year;
                spacingMeters = 8;
                plotSizeMeters = sqrt (areaHectares plot * 10000);
                clumpsPerRow = \<lfloor>plotSizeMeters / spacingMeters\<rfloor>;
                totalClumps = clumpsPerRow * clumpsPerRow;
                visibleClumps = min totalClumps (Math_round (areaHectares plot * 150));
                visibleGridSize = \<lceil>sqrt (real_of_int visibleClumps)\<rceil>
            in concat (map (geoClump plot p visibleGridSize) [0..<nat visibleClumps])))"

section \<open>The income panel: \<open>FloatingDataCards\<close>\<close>

text \<open>The constants of the component body, each a function of the plot and the year.\<close>

definition plantingYear :: real where
  "plantingYear = 2026"

definition yearsGrown :: "real \<Rightarrow> real" where
  "yearsGrown year = max 0 (year - plantingYear)"

definition harvestStartYear :: real where
  "harvestStartYear = 5"

definition canHarvest :: "real \<Rightarrow> bool" where
  "canHarvest year = (yearsGrown year \<ge> harvestStartYear)"

definition carbonRatePerHa :: real where
  "carbonRatePerHa = 87.5"

definition cardProgress :: "real \<Rightarrow> real" where
  "cardProgress year = min 1 (yearsGrown year / 6)"

definition currentCarbonRate :: "real \<Rightarrow> real" where
  "currentCarbonRate year = carbonRatePerHa * cardProgress year"

definition annualCarbon :: "Plot \<Rightarrow> real \<Rightarrow> real" where
  "annualCarbon plot year = areaHectares plot * currentCarbonRate year"

definition carbonPricePerTon :: real where
  "carbonPricePerTon = 30"

definition carbonIncome :: "Plot \<Rightarrow> real \<Rightarrow> real" where
  "carbonIncome plot year = annualCarbon plot year * carbonPricePerTon"

definition clumpsPerHa :: real where
  "clumpsPerHa = 150"

definition totalClumps :: "Plot \<Rightarrow> int" where
  "totalClumps plot = Math_round (areaHectares plot * clumpsPerHa)"

definition polesPerClump :: "real \<Rightarrow> real" where
  "polesPerClump year = min 100 (5 + cardProgress year * 95)"

definition totalPoles :: "Plot \<Rightarrow> real \<Rightarrow> real" where
  "totalPoles plot year = real_of_int (totalClumps plot) * polesPerClump year"

definition harvestablePolesPerClumpPerYear :: int where
  "harvestablePolesPerClumpPerYear = 20"

definition harvestablePolesPerYear :: "Plot \<Rightarrow> real \<Rightarrow> int" where
  "harvestablePolesPerYear plot year =
     (if canHarvest year then totalClumps plot * harvestablePolesPerClumpPerYear else 0)"

definition polePrice :: int where
  "polePrice = 10"

definition harvestIncome :: "Plot \<Rightarrow> real \<Rightarrow> int" where
  "harvestIncome plot year = harvestablePolesPerYear plot year * polePrice"

definition totalIncome :: "Plot \<Rightarrow> real \<Rightarrow> real" where
  "totalIncome plot year = carbonIncome plot year + real_of_int (harvestIncome plot year)"

section \<open>Runs of the schematic engine\<close>

text \<open>
  \<open>Math.random()\<close> returns a number that is at least 0 and below 1.
\<close>

definition unitStream :: "rng \<Rightarrow> bool" where
  "unitStream rs = (\<forall>r \<in> sset rs. 0 \<le> r \<and> r < 1)"

text \<open>
  The states of a clump that a simulation can reach: the constructor builds it, and
  then \<open>update\<close> is called any number of times with any progress. A harvest on its own
  is a step too, although only \<open>update\<close> calls it.
\<close>

inductive reachable :: "BambooClump \<Rightarrow> bool" where
  reachable_new: "unitStream rs \<Longrightarrow> reachable (fst (newBambooClump rs))"
| reachable_update: "reachable this \<Longrightarrow> unitStream rs \<Longrightarrow> reachable (fst (snd (update p this rs)))"
| reachable_harvest: "reachable this \<Longrightarrow> reachable (harvestMaturePoles gp this)"

text \<open>
  The distance of two poles, computed as the overlap test computes it, and the exclusion
  radius that \<open>addNewPoles\<close> derives for a pole of the clump.
\<close>

definition poleDistance :: "BambooPole \<Rightarrow> BambooPole \<Rightarrow> real" where
  "poleDistance a b =
     (let dx = position_x (mesh a) - position_x (mesh b);
          dz = position_z (mesh a) - position_z (mesh b)
      in sqrt (dx * dx + dz * dz))"

definition exclusionRadius :: "BambooPole \<Rightarrow> real" where
  "exclusionRadius pole = ep_radius (existingPositionOf pole)"

definition separated :: "real \<Rightarrow> BambooPole list \<Rightarrow> bool" where
  "separated c ps =
     (\<forall>i < length ps. \<forall>j < length ps.
        i \<noteq> j \<and> \<not> isHarvested (ps ! i) \<and> \<not> isHarvested (ps ! j) \<longrightarrow>
          (exclusionRadius (ps ! i) + exclusionRadius (ps ! j)) / c \<le> poleDistance (ps ! i) (ps ! j))"

text \<open>The counter of harvested poles agrees with the flags of the poles.\<close>

definition countOK :: "BambooClump \<Rightarrow> bool" where
  "countOK this = (harvestedPoles this = int (length (filter isHarvested (poles this))))"

text \<open>
  Notions for the invariant of the placement loops. A candidate is acceptable when, if
  it is marked valid, it passes the overlap test against every recorded circle and its
  thickness is positive. The bottom radii of the poles are non-negative. Every pole that
  is not harvested has a recorded circle at its position whose radius is at least its
  bottom radius divided by 1.3.
\<close>

definition candOK :: "ExistingPosition list \<Rightarrow> Candidate \<Rightarrow> bool" where
  "candOK eps c =
     (validPosition c \<longrightarrow>
        \<not> list_ex (tooClose (cand_x c) (cand_z c) (cand_thickness c)) eps \<and> 0 < cand_thickness c)"

definition radiiOK :: "BambooPole list \<Rightarrow> bool" where
  "radiiOK ps = (\<forall>q \<in> set ps. 0 \<le> geometry_radiusBottom (mesh q))"

definition covers :: "ExistingPosition list \<Rightarrow> BambooPole list \<Rightarrow> bool" where
  "covers eps ps =
     (\<forall>q \<in> set ps. \<not> isHarvested q \<longrightarrow>
        (\<exists>e \<in> set eps. ep_x e = position_x (mesh q) \<and> ep_z e = position_z (mesh q)
           \<and> geometry_radiusBottom (mesh q) / 1.3 \<le> ep_radius e))"

definition placeInv :: "PlaceState \<Rightarrow> bool" where
  "placeInv s =
     (separated 1.56 (ps_poles s) \<and> radiiOK (ps_poles s)
      \<and> covers (ps_existing s) (ps_poles s) \<and> unitStream (ps_rng s))"

definition goodPoles :: "BambooPole list \<Rightarrow> bool" where
  "goodPoles ps = (separated 1.56 ps \<and> radiiOK ps)"

text \<open>
  A sequence of draws on which the constructor places its first two poles 0.27 apart:
  both in the outer ring at angle 0, at radius 0.8 and 1.07, each of thickness 0.12 and
  bottom radius 0.1536.
\<close>

definition twoPoleStream :: rng where
  "twoPoleStream =
     [1/2, 0, 0, 0, 0, 0, 9/10, 0, 0, 0, 0, 0, 0, 0, 0,
      1/2, 27/100, 0, 0, 0, 0, 9/10] @- sconst 0"

section \<open>Measurements on the entities of the geo-referenced renderer\<close>

text \<open>
  The renderer adds, for each clump, a mound and then its poles. It places a pole by an
  offset in metres from the centre of the clump, which it converts to degrees: the
  offset to the north divided by 111320, the offset to the east divided by 111320 times
  the cosine of the latitude of the clump. \<open>geoDistance\<close> converts the difference of the
  coordinates of two poles back to metres, with the latitude of the mound of their
  clump. An entity that is not a pole has no bottom radius: \<open>entityBottomRadius\<close> is 0
  for it.
\<close>

definition isPoleCylinder :: "Entity \<Rightarrow> bool" where
  "isPoleCylinder e = (case e of PoleCylinder c \<Rightarrow> True | ClumpMound lng lat \<Rightarrow> False)"

definition entityLat :: "Entity \<Rightarrow> real" where
  "entityLat e = (case e of PoleCylinder c \<Rightarrow> pole_lat c | ClumpMound lng lat \<Rightarrow> lat)"

definition entityLng :: "Entity \<Rightarrow> real" where
  "entityLng e = (case e of PoleCylinder c \<Rightarrow> pole_lng c | ClumpMound lng lat \<Rightarrow> lng)"

definition entityBottomRadius :: "Entity \<Rightarrow> real" where
  "entityBottomRadius e = (case e of PoleCylinder c \<Rightarrow> pole_bottomRadius c | ClumpMound lng lat \<Rightarrow> 0)"

definition geoDistance :: "Entity \<Rightarrow> Entity \<Rightarrow> Entity \<Rightarrow> real" where
  "geoDistance mound a b =
     (let dx = (entityLng a - entityLng b) * (111320 * cos (entityLat mound * pi / 180));
          dz = (entityLat a - entityLat b) * 111320
      in sqrt (dx * dx + dz * dz))"

text \<open>
  A plot of one hectare at latitude 0.125 and longitude 0. Its seed is 125, and the
  renderer draws 144 clumps of 12 poles for it in the year 2035.
\<close>

definition overlapPlot :: Plot where
  "overlapPlot =
     \<lparr>plot_id = ''plot-1'', name = ''Plot 1'', stewardId = None, projectId = None,
      latitude = 1 / 8, longitude = 0, areaHectares = 1, clumpCount = None,
      status = ''verified'', healthScore = None, carbonTons = None\<rparr>"

section \<open>Properties\<close>

subsection \<open>Bounds on the exponential\<close>

lemma exp_45_lower: "(47::real) < exp (9/2)"
proof -
  have "(29/8::real) \<le> exp (3/2)"
    using exp_lower_Taylor_quadratic[of "3/2::real"] by (simp add: power2_eq_square)
  then have "(29/8::real)^3 \<le> exp (3/2) ^ 3"
    by (intro power_mono) auto
  also have "exp (3/2::real) ^ 3 = exp (9/2)"
    by (simp add: exp_of_nat_mult[symmetric])
  finally show ?thesis by (simp add: power3_eq_cube)
qed

lemma exp_105_lower: "(1000::real) < exp (21/2)"
proof -
  have "(85/8::real) \<le> exp (7/2)"
    using exp_lower_Taylor_quadratic[of "7/2::real"] by (simp add: power2_eq_square)
  then have "(85/8::real)^3 \<le> exp (7/2) ^ 3"
    by (intro power_mono) auto
  also have "exp (7/2::real) ^ 3 = exp (21/2)"
    by (simp add: exp_of_nat_mult[symmetric])
  finally show ?thesis by (simp add: power3_eq_cube)
qed

lemma exp_double_le:
  fixes x a b :: real
  assumes "exp x \<le> a" and "a * a \<le> b"
  shows "exp (2 * x) \<le> b"
proof -
  have "exp (2 * x) = exp x * exp x" by (simp add: exp_add[symmetric])
  also have "\<dots> \<le> a * a"
  proof -
    have "0 \<le> a" using assms(1) exp_ge_zero[of x] by linarith
    then show ?thesis using assms(1) by (intro mult_mono) auto
  qed
  finally show ?thesis using assms(2) by simp
qed

lemma exp_45_upper: "exp (9/2::real) < 94"
proof -
  have b0: "exp (1/128::real) \<le> 100788/100000"
    using exp_bound[of "1/128::real"] by (simp add: power2_eq_square)
  have b1: "exp (1/64::real) \<le> 101583/100000"
    using exp_double_le[OF b0, of "101583/100000"] by simp
  have b2: "exp (1/32::real) \<le> 103192/100000"
    using exp_double_le[OF b1, of "103192/100000"] by simp
  have b3: "exp (1/16::real) \<le> 106486/100000"
    using exp_double_le[OF b2, of "106486/100000"] by simp
  have b4: "exp (1/8::real) \<le> 113393/100000"
    using exp_double_le[OF b3, of "113393/100000"] by simp
  have b5: "exp (1/4::real) \<le> 12858/10000"
    using exp_double_le[OF b4, of "12858/10000"] by simp
  have b6: "exp (1/2::real) \<le> 16533/10000"
    using exp_double_le[OF b5, of "16533/10000"] by simp
  have b7: "exp (1::real) \<le> 27335/10000"
    using exp_double_le[OF b6, of "27335/10000"] by simp
  have b8: "exp (2::real) \<le> 74721/10000"
    using exp_double_le[OF b7, of "74721/10000"] by simp
  have b9: "exp (4::real) \<le> 55833/1000"
    using exp_double_le[OF b8, of "55833/1000"] by simp
  have "exp (9/2::real) = exp 4 * exp (1/2)"
    by (simp add: exp_add[symmetric])
  also have "\<dots> \<le> (55833/1000) * (16533/10000)"
    using b9 b6 by (intro mult_mono) auto
  also have "\<dots> < 94" by simp
  finally show ?thesis .
qed

subsection \<open>The growth curve\<close>

lemma one_plus_exp_pos: "0 < 1 + exp (x::real)"
  by (simp add: add_pos_pos)

lemma calculateHeight_mono: "p1 \<le> p2 \<Longrightarrow> calculateHeight p1 \<le> calculateHeight p2"
  unfolding calculateHeight_def Let_def
  by (intro add_left_mono divide_left_mono) (auto intro!: mult_pos_pos add_pos_pos)

lemma calculateHeight_0_bounds: "0.52 < calculateHeight 0 \<and> calculateHeight 0 < 0.55"
proof -
  have e: "exp (- (15::real) * (0 - 0.3)) = exp (9/2)" by simp
  have "calculateHeight 0 = 0.5 + 2.05 / (1 + exp (9/2))"
    unfolding calculateHeight_def Let_def e by simp
  moreover have "2.05 / (1 + exp (9/2::real)) < 2.05 / 48"
    using exp_45_lower by (intro divide_strict_left_mono) auto
  moreover have "2.05 / 95 < 2.05 / (1 + exp (9/2::real))"
    using exp_45_upper by (intro divide_strict_left_mono) (auto intro!: mult_pos_pos add_pos_pos)
  ultimately show ?thesis by simp
qed


lemma div_between:
  fixes a d lo hi :: real
  assumes "0 < a" and "0 < lo" and "lo < d" and "d < hi"
  shows "a / hi < a / d" and "a / d < a / lo"
  using assms by (simp_all add: frac_less2)

lemma calculateHeight_1_bounds: "2.54 < calculateHeight 1 \<and> calculateHeight 1 < 2.55"
proof -
  define d where "d = 1 + exp (- (21/2::real))"
  have e: "exp (- (15::real) * (1 - 0.3)) = exp (- (21/2))" by simp
  have h: "calculateHeight 1 = 0.5 + 2.05 / d"
    unfolding calculateHeight_def Let_def e d_def by simp
  have "exp (- (21/2::real)) < 1 / 1000"
    using exp_105_lower by (simp add: exp_minus field_simps)
  then have d: "1 < d" "d < 1001/1000" by (simp_all add: d_def)
  have "2.05 / (1001/1000) < 2.05 / d" "2.05 / d < 2.05 / 1"
    using div_between[of "2.05" 1 d "1001/1000"] d by simp_all
  then show ?thesis unfolding h by simp
qed

lemma logistic_floor_0:
  fixes m :: real
  assumes "1 + exp (9/2::real) \<le> m" and "m < 2 * (1 + exp (9/2))"
  shows "\<lfloor>5 + m / (1 + exp (- 15 * (0 - 0.3::real)))\<rfloor> = (6::int)"
proof -
  have e: "exp (- (15::real) * (0 - 0.3)) = exp (9/2)" by simp
  have d: "0 < 1 + exp (9/2::real)" by (simp add: add_pos_pos)
  have "1 \<le> m / (1 + exp (9/2::real))" using assms(1) d by (simp add: field_simps)
  moreover have "m / (1 + exp (9/2::real)) < 2" using assms(2) d by (simp add: field_simps)
  ultimately show ?thesis unfolding e by (simp add: floor_eq_iff)
qed


lemma logistic_floor_1:
  fixes k :: int
  assumes "1 \<le> k" and "k \<le> 1000"
  shows "\<lfloor>5 + real_of_int k / (1 + exp (- 15 * (1 - 0.3::real)))\<rfloor> = k + 4"
proof -
  define m where "m = real_of_int k"
  define d where "d = 1 + exp (- (21/2::real))"
  have m: "1 \<le> m" "m \<le> 1000" using assms by (simp_all add: m_def)
  have e: "exp (- (15::real) * (1 - 0.3)) = exp (- (21/2))" by simp
  have "exp (- (21/2::real)) < 1 / 1000"
    using exp_105_lower by (simp add: exp_minus field_simps)
  then have d: "1 < d" "d < 1001/1000" by (simp_all add: d_def)
  have "m < m * d" using d(1) m(1) by simp
  then have up: "m / d < m" using d(1) by (simp add: pos_divide_less_eq)
  have "(m - 1) * d \<le> (m - 1) * (1001/1000)"
    using d(2) m(1) by (intro mult_left_mono) auto
  also have "\<dots> \<le> m" using m by simp
  finally have lo: "m - 1 \<le> m / d" using d(1) by (simp add: pos_le_divide_eq)
  have f: "\<lfloor>m / d\<rfloor> = k - 1"
    by (rule floor_unique) (use lo up in \<open>simp_all add: m_def\<close>)
  have "\<lfloor>5 + m / d\<rfloor> = \<lfloor>m / d + of_int 5\<rfloor>" by (simp add: add.commute)
  also have "\<dots> = \<lfloor>m / d\<rfloor> + 5" by (simp only: floor_add_int)
  finally have "\<lfloor>5 + m / d\<rfloor> = k + 4" using f by simp
  then show ?thesis unfolding e m_def d_def .
qed

lemma calculatePoleCount_0: "maxPoles this = 100 \<Longrightarrow> calculatePoleCount this 0 = 6"
  unfolding calculatePoleCount_def Let_def
  using logistic_floor_0[of 95] exp_45_lower exp_45_upper by simp

lemma calculatePoleCount_1: "maxPoles this = 100 \<Longrightarrow> calculatePoleCount this 1 = 99"
  unfolding calculatePoleCount_def Let_def
  using logistic_floor_1[of 95] by simp

lemma calculatePoleCount_mono:
  assumes "p1 \<le> p2" and "5 \<le> maxPoles this"
  shows "calculatePoleCount this p1 \<le> calculatePoleCount this p2"
  unfolding calculatePoleCount_def Let_def using assms
  by (intro floor_mono add_left_mono divide_left_mono)
     (auto intro!: mult_pos_pos simp: one_plus_exp_pos)

lemma clampProgress_le0: "p \<le> 0 \<Longrightarrow> clampProgress p = 0"
  by (simp add: clampProgress_def)

lemma clampProgress_ge1: "1 \<le> p \<Longrightarrow> clampProgress p = 1"
  by (simp add: clampProgress_def)


subsection \<open>What each step of \<open>update\<close> leaves unchanged\<close>

lemma addNewPoles_frame [simp]:
  "maxPoles (fst (addNewPoles n this rs)) = maxPoles this"
  "harvestedPoles (fst (addNewPoles n this rs)) = harvestedPoles this"
  "clumpTargetHeight (fst (addNewPoles n this rs)) = clumpTargetHeight this"
  "growthProgress (fst (addNewPoles n this rs)) = growthProgress this"
  "currentPoles (fst (addNewPoles n this rs)) = currentPoles this + n"
  by (simp_all add: addNewPoles_def Let_def)

lemma harvestMaturePoles_frame [simp]:
  "maxPoles (harvestMaturePoles gp this) = maxPoles this"
  "currentPoles (harvestMaturePoles gp this) = currentPoles this"
  "clumpTargetHeight (harvestMaturePoles gp this) = clumpTargetHeight this"
  "growthProgress (harvestMaturePoles gp this) = growthProgress this"
  by (simp_all add: harvestMaturePoles_def)

lemma logistic_range:
  fixes lo hi k m p :: real
  assumes "lo < hi"
  shows "lo < lo + (hi - lo) / (1 + exp (- k * (p - m)))"
    and "lo + (hi - lo) / (1 + exp (- k * (p - m))) < hi"
proof -
  define d where "d = 1 + exp (- k * (p - m))"
  have d: "1 < d" by (simp add: d_def)
  have "0 < (hi - lo) / d" using assms d by simp
  moreover have "(hi - lo) / d < hi - lo" using assms d by (simp add: pos_divide_less_eq)
  ultimately show "lo < lo + (hi - lo) / (1 + exp (- k * (p - m)))"
    and "lo + (hi - lo) / (1 + exp (- k * (p - m))) < hi"
    unfolding d_def by linarith+
qed

lemma calculateHeight_gt_min: "0.5 < calculateHeight p"
  unfolding calculateHeight_def Let_def
  by (rule logistic_range) simp

lemma calculateHeight_lt_max: "calculateHeight p < 2.55"
  unfolding calculateHeight_def Let_def
  by (rule logistic_range) simp

lemma update_grow_frame [simp]:
  "growthProgress (fst (update_grow p this rs)) = clampProgress p"
  "clumpTargetHeight (fst (update_grow p this rs)) = calculateHeight (clampProgress p)"
  "maxPoles (fst (update_grow p this rs)) = maxPoles this"
  "harvestedPoles (fst (update_grow p this rs)) = harvestedPoles this"
  by (simp_all add: update_grow_def Let_def)

lemma update_harvest_frame [simp]:
  "growthProgress (fst (update_harvest this rs)) = growthProgress this"
  "clumpTargetHeight (fst (update_harvest this rs)) = clumpTargetHeight this"
  "maxPoles (fst (update_harvest this rs)) = maxPoles this"
  "currentPoles (fst (update_harvest this rs)) = currentPoles this"
  by (simp_all add: update_harvest_def Let_def split_beta)

lemma update_poles_frame [simp]:
  "growthProgress (fst (update_poles this rs)) = growthProgress this"
  "clumpTargetHeight (fst (update_poles this rs)) = clumpTargetHeight this"
  "maxPoles (fst (update_poles this rs)) = maxPoles this"
  "currentPoles (fst (update_poles this rs)) = currentPoles this"
  "harvestedPoles (fst (update_poles this rs)) = harvestedPoles this"
  by (simp_all add: update_poles_def Let_def split_beta)

lemma update_fst: "fst (update p this rs) = update_result (fst (snd (update p this rs)))"
  by (simp add: update_def Let_def split_beta)

lemma update_state:
  "fst (snd (update p this rs)) =
     fst (update_poles (fst (update_harvest (fst (update_grow p this rs)) (snd (update_grow p this rs))))
            (snd (update_harvest (fst (update_grow p this rs)) (snd (update_grow p this rs)))))"
  by (simp add: update_def Let_def split_beta)

lemma update_height:
  "height (fst (update p this rs)) = calculateHeight (clampProgress p)"
  using calculateHeight_gt_min[of "clampProgress p"]
  by (simp add: update_fst update_state update_result_def Let_def)

lemma update_poleCount:
  "poleCount (fst (update p this rs)) =
     max 5 (currentPoles (fst (snd (update p this rs))) - harvestedPoles (fst (snd (update p this rs))))"
  by (simp add: update_fst update_result_def Let_def)

lemma newBambooClump_frame [simp]:
  "maxPoles (fst (newBambooClump rs)) = 100"
  "currentPoles (fst (newBambooClump rs)) = 5"
  "harvestedPoles (fst (newBambooClump rs)) = 0"
  by (simp_all add: newBambooClump_def emptyClump_def)

subsection \<open>C2: the edges of the growth curve\<close>

lemma update_grow_currentPoles:
  "currentPoles (fst (update_grow p this rs)) =
     max (currentPoles this) (calculatePoleCount this (clampProgress p))"
proof -
  have "calculatePoleCount (this\<lparr>growthProgress := clampProgress p,
          clumpTargetHeight := calculateHeight (clampProgress p)\<rparr>) (clampProgress p)
        = calculatePoleCount this (clampProgress p)"
    by (simp add: calculatePoleCount_def)
  then show ?thesis by (simp add: update_grow_def Let_def)
qed

lemma update_currentPoles:
  "currentPoles (fst (snd (update p this rs))) =
     max (currentPoles this) (calculatePoleCount this (clampProgress p))"
  by (simp add: update_state update_grow_currentPoles)

lemma update_growthProgress:
  "growthProgress (fst (snd (update p this rs))) = clampProgress p"
  by (simp add: update_state)

lemma update_harvested_low:
  "clampProgress p \<le> 0.5 \<Longrightarrow>
     harvestedPoles (fst (snd (update p this rs))) = harvestedPoles this"
  by (simp add: update_state update_harvest_def split_beta)

text \<open>
  Claim C2, as amended. \<open>update\<close> clamps the progress to the interval from 0 to 1 before
  it evaluates the curve, so every progress at or below 0 gives the values of the curve
  at 0 and every progress at or above 1 gives its values at 1: nothing is extrapolated.
  This shows in what \<open>update\<close> returns and leaves behind: the height it returns, the
  progress it stores, and \<open>currentPoles\<close>, which it raises to the target pole count
  when that is larger. These values are those of the logistic function, not the
  configured limits: the height at 0 lies between 0.52 and 0.55 and the target pole
  count at 0 is 6; the height at 1 lies between 2.54 and 2.55, below the maximum, and the
  target pole count at 1 is 99 for a maximum of 100.
\<close>

theorem growth_curve_edges:
  assumes "maxPoles this = 100"
  shows "(p \<le> 0 \<longrightarrow> height (fst (update p this rs)) = calculateHeight 0
                 \<and> growthProgress (fst (snd (update p this rs))) = 0
                 \<and> calculatePoleCount this (clampProgress p) = 6
                 \<and> currentPoles (fst (snd (update p this rs))) = max (currentPoles this) 6
                 \<and> poleCount (fst (update p this rs))
                     = max 5 (max (currentPoles this) 6 - harvestedPoles this))
       \<and> (1 \<le> p \<longrightarrow> height (fst (update p this rs)) = calculateHeight 1
                 \<and> growthProgress (fst (snd (update p this rs))) = 1
                 \<and> calculatePoleCount this (clampProgress p) = 99
                 \<and> currentPoles (fst (snd (update p this rs))) = max (currentPoles this) 99)
       \<and> 0.52 < calculateHeight 0 \<and> calculateHeight 0 < 0.55
       \<and> 2.54 < calculateHeight 1 \<and> calculateHeight 1 < 2.55"
proof -
  have lo: "p \<le> 0 \<Longrightarrow> height (fst (update p this rs)) = calculateHeight 0
                 \<and> growthProgress (fst (snd (update p this rs))) = 0
                 \<and> calculatePoleCount this (clampProgress p) = 6
                 \<and> currentPoles (fst (snd (update p this rs))) = max (currentPoles this) 6
                 \<and> poleCount (fst (update p this rs))
                     = max 5 (max (currentPoles this) 6 - harvestedPoles this)"
    using assms
    by (simp add: update_height update_growthProgress update_currentPoles update_poleCount
          update_harvested_low clampProgress_le0 calculatePoleCount_0)
  have hi: "1 \<le> p \<Longrightarrow> height (fst (update p this rs)) = calculateHeight 1
                 \<and> growthProgress (fst (snd (update p this rs))) = 1
                 \<and> calculatePoleCount this (clampProgress p) = 99
                 \<and> currentPoles (fst (snd (update p this rs))) = max (currentPoles this) 99"
    using assms
    by (simp add: update_height update_growthProgress update_currentPoles
          clampProgress_ge1 calculatePoleCount_1)
  show ?thesis
    using lo hi calculateHeight_0_bounds calculateHeight_1_bounds by blast
qed

theorem growth_curve_edges_witness:
  "height (fst (update (-1) (fst (newBambooClump (sconst 0))) (sconst 0))) = calculateHeight 0
   \<and> calculatePoleCount (fst (newBambooClump (sconst 0))) (clampProgress (-1)) = 6
   \<and> currentPoles (fst (snd (update (-1) (fst (newBambooClump (sconst 0))) (sconst 0)))) = 6
   \<and> poleCount (fst (update (-1) (fst (newBambooClump (sconst 0))) (sconst 0))) = 6
   \<and> height (fst (update 2 (fst (newBambooClump (sconst 0))) (sconst 0))) = calculateHeight 1
   \<and> calculatePoleCount (fst (newBambooClump (sconst 0))) (clampProgress 2) = 99
   \<and> currentPoles (fst (snd (update 2 (fst (newBambooClump (sconst 0))) (sconst 0)))) = 99"
  using growth_curve_edges[of "fst (newBambooClump (sconst 0))" "-1" "sconst 0"]
        growth_curve_edges[of "fst (newBambooClump (sconst 0))" 2 "sconst 0"]
  by simp

text \<open>
  The claim as it is written fails on a new clump: at progress 0 the height exceeds the
  minimum 0.5 by more than 0.02 and the pole count is 6, not 5; at progress 1 the height
  is below 2.55 and the pole count is 99, not the maximum 100.
\<close>

theorem growth_curve_edges_counterexample:
  "0.52 < height (fst (update 0 (fst (newBambooClump (sconst 0))) (sconst 0)))
   \<and> calculatePoleCount (fst (newBambooClump (sconst 0))) (clampProgress 0) = 6
   \<and> currentPoles (fst (snd (update 0 (fst (newBambooClump (sconst 0))) (sconst 0)))) = 6
   \<and> poleCount (fst (update 0 (fst (newBambooClump (sconst 0))) (sconst 0))) = 6
   \<and> height (fst (update 1 (fst (newBambooClump (sconst 0))) (sconst 0))) < 2.55
   \<and> calculatePoleCount (fst (newBambooClump (sconst 0))) (clampProgress 1) = 99
   \<and> currentPoles (fst (snd (update 1 (fst (newBambooClump (sconst 0))) (sconst 0)))) = 99
   \<and> maxPoles (fst (newBambooClump (sconst 0))) = 100"
  using calculateHeight_0_bounds calculateHeight_1_bounds
  by (simp add: update_height update_currentPoles update_poleCount update_harvested_low
        clampProgress_def calculatePoleCount_0 calculatePoleCount_1)

subsection \<open>C3: the growth curve is monotonic\<close>

lemma baseHeight_mono: "p1 \<le> p2 \<Longrightarrow> baseHeight p1 \<le> baseHeight p2"
  unfolding baseHeight_def Let_def
  by (intro add_left_mono divide_left_mono) (auto intro!: mult_pos_pos simp: one_plus_exp_pos)

lemma poleCountPerClump_mono: "p1 \<le> p2 \<Longrightarrow> poleCountPerClump p1 \<le> poleCountPerClump p2"
  unfolding poleCountPerClump_def Let_def
  by (intro floor_mono add_left_mono divide_left_mono)
     (auto intro!: mult_pos_pos simp: one_plus_exp_pos)

text \<open>
  Claim C3. For progress values \<open>p1 < p2\<close> between 0 and 1, the height and the pole
  count at \<open>p2\<close> are at least those at \<open>p1\<close>, in the schematic engine
  (\<open>calculateHeight\<close>, \<open>calculatePoleCount\<close>, whatever the maximum of the clump, provided
  it is not below the minimum 5) and in the geo-referenced renderer (\<open>baseHeight\<close>,
  \<open>poleCountPerClump\<close>).
\<close>

theorem growth_monotonic:
  assumes "0 \<le> p1" and "p1 < p2" and "p2 \<le> 1" and "5 \<le> maxPoles this"
  shows "calculateHeight p1 \<le> calculateHeight p2
       \<and> calculatePoleCount this p1 \<le> calculatePoleCount this p2
       \<and> baseHeight p1 \<le> baseHeight p2
       \<and> poleCountPerClump p1 \<le> poleCountPerClump p2"
  using assms
  by (simp add: calculateHeight_mono calculatePoleCount_mono baseHeight_mono
        poleCountPerClump_mono)

theorem growth_monotonic_witness:
  "calculateHeight 0.2 \<le> calculateHeight 0.7
   \<and> calculatePoleCount (fst (newBambooClump (sconst 0))) 0.2
       \<le> calculatePoleCount (fst (newBambooClump (sconst 0))) 0.7
   \<and> baseHeight 0.2 \<le> baseHeight 0.7
   \<and> poleCountPerClump 0.2 \<le> poleCountPerClump 0.7"
  using growth_monotonic[of "0.2" "0.7" "fst (newBambooClump (sconst 0))"]
  by simp

subsection \<open>C7: carbon and income on degenerate input\<close>

lemma toFixed1_nonneg: "0 \<le> v \<Longrightarrow> 0 \<le> toFixed1 v"
  by (simp add: toFixed1_def)

lemma calculateCarbon_nonneg: "0 \<le> h \<Longrightarrow> 0 \<le> pc \<Longrightarrow> 0 \<le> calculateCarbon h pc"
  unfolding calculateCarbon_def by (intro toFixed1_nonneg) simp

lemma update_carbon_nonneg: "0 \<le> carbon (fst (update p this rs))"
  by (simp add: update_fst update_result_def Let_def)

lemma cardProgress_nonneg: "0 \<le> cardProgress year"
  by (simp add: cardProgress_def yearsGrown_def)

lemma Math_round_nonneg: "0 \<le> v \<Longrightarrow> 0 \<le> Math_round v"
  by (simp add: Math_round_def)

lemma toFixed1_nonpos: "v \<le> 0 \<Longrightarrow> toFixed1 v \<le> 0"
  by (simp add: toFixed1_def)

lemma calculateCarbon_zero: "calculateCarbon 0 pc = 0" "calculateCarbon h 0 = 0"
  by (simp_all add: calculateCarbon_def toFixed1_def)

lemma calculateCarbon_nonpos: "h * pc \<le> 0 \<Longrightarrow> calculateCarbon h pc \<le> 0"
proof -
  assume a: "h * pc \<le> 0"
  have "h / 27 * (pc / 90) * 87.5 = (h * pc) * (87.5 / (27 * 90))" by simp
  also have "\<dots> \<le> 0" by (rule mult_nonpos_nonneg[OF a]) simp
  finally show ?thesis unfolding calculateCarbon_def by (rule toFixed1_nonpos)
qed

lemma Math_round_nonpos: "v \<le> 0 \<Longrightarrow> Math_round v \<le> 0"
proof -
  assume "v \<le> 0"
  then have "v + 1 / 2 < 1" by simp
  then have "\<lfloor>v + 1 / 2\<rfloor> < 1" by (simp add: floor_less_iff)
  then show ?thesis by (simp add: Math_round_def)
qed

text \<open>
  Claim C7, as amended. The carbon of height 0 and pole count 0 is 0, and so is the
  carbon whenever the height or the pole count is 0. \<open>calculateCarbon\<close> is non-negative
  for non-negative height and pole count; where the product of height and pole count is
  not positive it is not positive, so that the clamp \<open>Math.max(0, ...)\<close> of \<open>update\<close> gives
  0 there, and the carbon that \<open>update\<close> returns is never negative. The carbon income
  and the harvest income of the income panel are 0 for a plot of area 0 and for every
  year up to the planting year, are non-negative for every non-negative area, and are
  never positive for a negative area.
\<close>

theorem derivations_degenerate:
  "calculateCarbon 0 0 = 0
   \<and> calculateCarbon 0 pc = 0
   \<and> calculateCarbon h 0 = 0
   \<and> (0 \<le> h \<and> 0 \<le> pc \<longrightarrow> 0 \<le> calculateCarbon h pc)
   \<and> (h * pc \<le> 0 \<longrightarrow> calculateCarbon h pc \<le> 0 \<and> max 0 (calculateCarbon h pc) = 0)
   \<and> 0 \<le> carbon (fst (update p this rs))
   \<and> (areaHectares plot = 0 \<longrightarrow> carbonIncome plot year = 0 \<and> harvestIncome plot year = 0)
   \<and> (0 \<le> areaHectares plot \<longrightarrow> 0 \<le> carbonIncome plot year \<and> 0 \<le> harvestIncome plot year)
   \<and> (areaHectares plot \<le> 0 \<longrightarrow> carbonIncome plot year \<le> 0 \<and> harvestIncome plot year \<le> 0)
   \<and> (year \<le> plantingYear \<longrightarrow> carbonIncome plot year = 0 \<and> harvestIncome plot year = 0)"
proof -
  have r0: "Math_round 0 = 0" by (simp add: Math_round_def)
  have z: "areaHectares plot = 0 \<Longrightarrow> carbonIncome plot year = 0 \<and> harvestIncome plot year = 0"
    by (simp add: carbonIncome_def annualCarbon_def harvestIncome_def
          harvestablePolesPerYear_def totalClumps_def r0)
  have n1: "0 \<le> areaHectares plot \<Longrightarrow> 0 \<le> carbonIncome plot year"
    using cardProgress_nonneg[of year]
    by (simp add: carbonIncome_def annualCarbon_def currentCarbonRate_def carbonRatePerHa_def
          carbonPricePerTon_def)
  have n2: "0 \<le> areaHectares plot \<Longrightarrow> 0 \<le> harvestIncome plot year"
    using Math_round_nonneg[of "areaHectares plot * clumpsPerHa"]
    by (simp add: harvestIncome_def harvestablePolesPerYear_def totalClumps_def
          harvestablePolesPerClumpPerYear_def polePrice_def clumpsPerHa_def)
  have m1: "areaHectares plot \<le> 0 \<Longrightarrow> carbonIncome plot year \<le> 0"
    using cardProgress_nonneg[of year]
    by (simp add: carbonIncome_def annualCarbon_def currentCarbonRate_def carbonRatePerHa_def
          carbonPricePerTon_def mult_le_0_iff)
  have m2: "areaHectares plot \<le> 0 \<Longrightarrow> harvestIncome plot year \<le> 0"
  proof -
    assume "areaHectares plot \<le> 0"
    then have "areaHectares plot * clumpsPerHa \<le> 0"
      by (simp add: clumpsPerHa_def mult_le_0_iff)
    then have "Math_round (areaHectares plot * clumpsPerHa) \<le> 0" by (rule Math_round_nonpos)
    then show ?thesis
      by (simp add: harvestIncome_def harvestablePolesPerYear_def totalClumps_def
          harvestablePolesPerClumpPerYear_def polePrice_def mult_le_0_iff)
  qed
  have y: "year \<le> plantingYear \<Longrightarrow> carbonIncome plot year = 0 \<and> harvestIncome plot year = 0"
    by (simp add: carbonIncome_def annualCarbon_def currentCarbonRate_def cardProgress_def
          yearsGrown_def harvestIncome_def harvestablePolesPerYear_def canHarvest_def
          harvestStartYear_def)
  have c: "h * pc \<le> 0 \<Longrightarrow> calculateCarbon h pc \<le> 0 \<and> max 0 (calculateCarbon h pc) = 0"
    using calculateCarbon_nonpos[of h pc] by (simp add: max_def)
  show ?thesis
    by (intro conjI impI calculateCarbon_zero update_carbon_nonneg)
       (use z n1 n2 m1 m2 y c calculateCarbon_nonneg[of h pc] in \<open>simp_all\<close>)
qed

theorem derivations_degenerate_witness:
  "calculateCarbon 0 0 = 0
   \<and> calculateCarbon 0 50 = 0
   \<and> calculateCarbon 2 0 = 0
   \<and> 0 \<le> calculateCarbon 2 50
   \<and> max 0 (calculateCarbon (- 2) 50) = 0
   \<and> 0 \<le> carbon (fst (update 0.4 (fst (newBambooClump (sconst 0))) (sconst 0)))
   \<and> carbonIncome \<lparr>plot_id = ''p'', name = ''n'', stewardId = None, projectId = None,
        latitude = 8, longitude = 124, areaHectares = 0, clumpCount = None,
        status = ''pending'', healthScore = None, carbonTons = None\<rparr> 2032 = 0
   \<and> harvestIncome \<lparr>plot_id = ''p'', name = ''n'', stewardId = None, projectId = None,
        latitude = 8, longitude = 124, areaHectares = 0, clumpCount = None,
        status = ''pending'', healthScore = None, carbonTons = None\<rparr> 2032 = 0
   \<and> 0 \<le> carbonIncome \<lparr>plot_id = ''p'', name = ''n'', stewardId = None, projectId = None,
        latitude = 8, longitude = 124, areaHectares = 2, clumpCount = None,
        status = ''pending'', healthScore = None, carbonTons = None\<rparr> 2032
   \<and> 0 \<le> harvestIncome \<lparr>plot_id = ''p'', name = ''n'', stewardId = None, projectId = None,
        latitude = 8, longitude = 124, areaHectares = 2, clumpCount = None,
        status = ''pending'', healthScore = None, carbonTons = None\<rparr> 2032
   \<and> carbonIncome \<lparr>plot_id = ''p'', name = ''n'', stewardId = None, projectId = None,
        latitude = 8, longitude = 124, areaHectares = - 1, clumpCount = None,
        status = ''pending'', healthScore = None, carbonTons = None\<rparr> 2032 \<le> 0
   \<and> harvestIncome \<lparr>plot_id = ''p'', name = ''n'', stewardId = None, projectId = None,
        latitude = 8, longitude = 124, areaHectares = - 1, clumpCount = None,
        status = ''pending'', healthScore = None, carbonTons = None\<rparr> 2032 \<le> 0
   \<and> carbonIncome \<lparr>plot_id = ''p'', name = ''n'', stewardId = None, projectId = None,
        latitude = 8, longitude = 124, areaHectares = 2, clumpCount = None,
        status = ''pending'', healthScore = None, carbonTons = None\<rparr> 2020 = 0
   \<and> harvestIncome \<lparr>plot_id = ''p'', name = ''n'', stewardId = None, projectId = None,
        latitude = 8, longitude = 124, areaHectares = 2, clumpCount = None,
        status = ''pending'', healthScore = None, carbonTons = None\<rparr> 2020 = 0"
proof -
  let ?P = "\<lambda>a. \<lparr>plot_id = ''p'', name = ''n'', stewardId = None, projectId = None,
        latitude = 8, longitude = 124, areaHectares = a, clumpCount = None,
        status = ''pending'', healthScore = None, carbonTons = None\<rparr>"
  let ?T = "fst (newBambooClump (sconst 0))"
  note a = derivations_degenerate[of 50 2 "0.4" ?T "sconst 0" "?P 0" 2032]
  note b = derivations_degenerate[of 50 "- 2" "0.4" ?T "sconst 0" "?P 2" 2032]
  note c = derivations_degenerate[of 50 2 "0.4" ?T "sconst 0" "?P (- 1)" 2032]
  note d = derivations_degenerate[of 50 2 "0.4" ?T "sconst 0" "?P 2" 2020]
  show ?thesis using a b c d by (simp add: plantingYear_def)
qed

text \<open>
  Negative inputs are not turned into 0 by \<open>calculateCarbon\<close> itself or by the income
  panel: a plot of area \<open>-1\<close> ha in 2032 has a carbon income of \<open>-2625\<close> and a harvest
  income of \<open>-30000\<close>, and the carbon of height \<open>-2.7\<close> and pole count 9 is \<open>-0.9\<close>.
\<close>

theorem derivations_degenerate_counterexample:
  "carbonIncome \<lparr>plot_id = ''p'', name = ''n'', stewardId = None, projectId = None,
        latitude = 8, longitude = 124, areaHectares = - 1, clumpCount = None,
        status = ''pending'', healthScore = None, carbonTons = None\<rparr> 2032 = - 2625
   \<and> harvestIncome \<lparr>plot_id = ''p'', name = ''n'', stewardId = None, projectId = None,
        latitude = 8, longitude = 124, areaHectares = - 1, clumpCount = None,
        status = ''pending'', healthScore = None, carbonTons = None\<rparr> 2032 = - 30000
   \<and> calculateCarbon (- 2.7) 9 = - 0.9"
proof -
  have "\<lfloor>(35/4 + 1/2)::real\<rfloor> = 9" by (simp add: floor_eq_iff)
  then have "calculateCarbon (- 2.7) 9 = - 0.9"
    by (simp add: calculateCarbon_def toFixed1_def)
  then show ?thesis
    by (simp add: carbonIncome_def annualCarbon_def currentCarbonRate_def cardProgress_def
        yearsGrown_def plantingYear_def carbonRatePerHa_def carbonPricePerTon_def
        harvestIncome_def harvestablePolesPerYear_def canHarvest_def harvestStartYear_def
        totalClumps_def clumpsPerHa_def Math_round_def harvestablePolesPerClumpPerYear_def
        polePrice_def)
qed

subsection \<open>C9: the income formulas\<close>

text \<open>
  Claim C9. The annual carbon income is the area times the carbon rate at the current
  progress (87.5 times the fraction of six years grown since 2026, at most 1) times the
  carbon price 30; the harvest income is the number of harvestable poles per year times
  the pole price 10; and the harvest income is 0 while fewer than five years have been
  grown, that is for every year before 2031. From 2031 on, the harvestable poles are 20
  per clump.
\<close>

theorem economics_formulas:
  "carbonIncome plot year = areaHectares plot * currentCarbonRate year * carbonPricePerTon
   \<and> currentCarbonRate year = 87.5 * min 1 (max 0 (year - 2026) / 6)
   \<and> carbonPricePerTon = 30
   \<and> harvestIncome plot year = harvestablePolesPerYear plot year * polePrice
   \<and> polePrice = 10
   \<and> (yearsGrown year < harvestStartYear \<longrightarrow> harvestIncome plot year = 0)
   \<and> (year < 2031 \<longrightarrow> harvestIncome plot year = 0)
   \<and> (2031 \<le> year \<longrightarrow> harvestablePolesPerYear plot year = Math_round (areaHectares plot * 150) * 20)"
  by (auto simp add: carbonIncome_def annualCarbon_def currentCarbonRate_def cardProgress_def
        yearsGrown_def plantingYear_def carbonRatePerHa_def carbonPricePerTon_def
        harvestIncome_def harvestablePolesPerYear_def canHarvest_def harvestStartYear_def
        totalClumps_def clumpsPerHa_def harvestablePolesPerClumpPerYear_def polePrice_def)

theorem economics_formulas_witness:
  "harvestIncome \<lparr>plot_id = ''p'', name = ''n'', stewardId = None, projectId = None,
        latitude = 8, longitude = 124, areaHectares = 2, clumpCount = None,
        status = ''pending'', healthScore = None, carbonTons = None\<rparr> 2030 = 0
   \<and> harvestablePolesPerYear \<lparr>plot_id = ''p'', name = ''n'', stewardId = None, projectId = None,
        latitude = 8, longitude = 124, areaHectares = 2, clumpCount = None,
        status = ''pending'', healthScore = None, carbonTons = None\<rparr> 2031 = 6000"
proof -
  let ?P = "\<lparr>plot_id = ''p'', name = ''n'', stewardId = None, projectId = None,
        latitude = 8, longitude = 124, areaHectares = 2, clumpCount = None,
        status = ''pending'', healthScore = None, carbonTons = None\<rparr>"
  have y: "yearsGrown 2030 < harvestStartYear" "(2031::real) \<le> 2031"
    by (simp_all add: yearsGrown_def plantingYear_def harvestStartYear_def)
  have r: "Math_round (areaHectares ?P * 150) * 20 = 6000" by (simp add: Math_round_def)
  have a: "harvestIncome ?P 2030 = 0"
    using economics_formulas[of ?P 2030] y(1) by blast
  have "harvestablePolesPerYear ?P 2031 = Math_round (areaHectares ?P * 150) * 20"
    using economics_formulas[of ?P 2031] y(2) by blast
  then show ?thesis using a r by simp
qed

subsection \<open>C5: what one harvest does\<close>

lemma set_maturePoles:
  "set (maturePoles ps) =
     {i. i < length ps \<and> 3 \<le> ageInYears (ps ! i) \<and> \<not> isHarvested (ps ! i)}"
  by (auto simp: maturePoles_def)

lemma distinct_maturePoles: "distinct (maturePoles ps)"
  by (simp add: maturePoles_def)

lemma harvestOrder_props:
  "distinct (harvestOrder ps)"
  "set (harvestOrder ps) = set (maturePoles ps)"
  "length (harvestOrder ps) = length (maturePoles ps)"
  "sorted (map (\<lambda>i. - ageInYears (ps ! i)) (harvestOrder ps))"
  by (simp_all add: harvestOrder_def distinct_maturePoles)

lemma ceiling_fifth_le: "nat \<lceil>real n * 0.2\<rceil> \<le> n"
proof -
  have "real n * 0.2 \<le> real_of_int (int n)" by simp
  then have "\<lceil>real n * 0.2\<rceil> \<le> int n" by (simp only: ceiling_le_iff)
  then show ?thesis by simp
qed

lemma polesToHarvest_le: "polesToHarvest ps \<le> length (maturePoles ps)"
  by (simp add: polesToHarvest_def ceiling_fifth_le)

lemma harvestChosen_props:
  "distinct (harvestChosen ps)"
  "set (harvestChosen ps) \<subseteq> set (maturePoles ps)"
  "length (harvestChosen ps) = polesToHarvest ps"
  using polesToHarvest_le[of ps] harvestOrder_props[of ps] set_take_subset[of "polesToHarvest ps" "harvestOrder ps"]
  by (auto simp: harvestChosen_def)

lemma sorted_take_drop:
  assumes "sorted (map f xs)" and "a \<in> set (take k xs)" and "b \<in> set (drop k xs)"
  shows "f a \<le> f b"
proof -
  have "sorted (map f (take k xs) @ map f (drop k xs))"
    using assms(1) by (simp flip: map_append)
  then show ?thesis using assms(2,3) by (auto simp: sorted_append)
qed

lemma harvestChosen_oldest:
  assumes "i \<in> set (harvestChosen ps)" and "j \<in> set (maturePoles ps)"
    and "j \<notin> set (harvestChosen ps)"
  shows "ageInYears (ps ! j) \<le> ageInYears (ps ! i)"
proof -
  have "set (harvestOrder ps) = set (take (polesToHarvest ps) (harvestOrder ps))
          \<union> set (drop (polesToHarvest ps) (harvestOrder ps))"
    by (metis append_take_drop_id set_append)
  then have "j \<in> set (drop (polesToHarvest ps) (harvestOrder ps))"
    using assms(2,3) by (auto simp: harvestOrder_props(2) harvestChosen_def)
  then have "- ageInYears (ps ! i) \<le> - ageInYears (ps ! j)"
    using sorted_take_drop[OF harvestOrder_props(4)[of ps], of i "polesToHarvest ps" j] assms(1)
    by (simp add: harvestChosen_def)
  then show ?thesis by simp
qed

lemma harvestMaturePoles_poles:
  assumes "\<not> gp < 0.3"
  shows "poles (harvestMaturePoles gp this) =
           map (\<lambda>i. if i \<in> set (harvestChosen (poles this))
                     then markHarvested (poles this ! i) else poles this ! i)
               [0..<length (poles this)]"
proof (cases "polesToHarvest (poles this) = 0")
  case True
  then have "harvestChosen (poles this) = []" by (simp add: harvestChosen_def)
  then show ?thesis using assms True by (simp add: harvestMaturePoles_def map_nth)
next
  case False
  then show ?thesis using assms by (simp add: harvestMaturePoles_def)
qed

lemma harvestMaturePoles_count:
  assumes "\<not> gp < 0.3"
  shows "harvestedPoles (harvestMaturePoles gp this) =
           harvestedPoles this + int (length (harvestChosen (poles this)))"
proof (cases "polesToHarvest (poles this) = 0")
  case True
  then have "harvestChosen (poles this) = []" by (simp add: harvestChosen_def)
  then show ?thesis using assms True by (simp add: harvestMaturePoles_def)
next
  case False
  then show ?thesis using assms by (simp add: harvestMaturePoles_def)
qed

lemma harvestMaturePoles_early: "gp < 0.3 \<Longrightarrow> harvestMaturePoles gp this = this"
  by (simp add: harvestMaturePoles_def)

lemma markHarvested_fields [simp]:
  "isHarvested (markHarvested p)"
  "ageInYears (markHarvested p) = ageInYears p"
  "position_x (mesh (markHarvested p)) = position_x (mesh p)"
  "position_z (mesh (markHarvested p)) = position_z (mesh p)"
  "geometry_radiusBottom (mesh (markHarvested p)) = geometry_radiusBottom (mesh p)"
  by (simp_all add: markHarvested_def)

lemma makePole_fields [simp]:
  "isHarvested (fst (makePole x z t rs)) = False"
  "ageInYears (fst (makePole x z t rs)) = 0"
  "position_x (mesh (fst (makePole x z t rs))) = x"
  "position_z (mesh (fst (makePole x z t rs))) = z"
  "geometry_radiusBottom (mesh (fst (makePole x z t rs))) = t * (1.1 + shd (stl (stl rs)) * 0.2)"
  by (simp_all add: makePole_def Math_random_def Let_def split_beta)

lemma makePole_rng: "snd (makePole x z t rs) = sdrop 11 rs"
  by (simp add: makePole_def Math_random_def Let_def split_beta eval_nat_numeral)

text \<open>
  Claim C5. A harvest that passes the progress guard (\<open>update\<close> triggers it only above
  progress 0.5) selects exactly the poles of age at least 3 that are not yet harvested,
  orders them by descending age, and marks the first \<open>\<lceil>20% of their number\<rceil>\<close> of that order:
  the marked poles are eligible, none of the eligible poles left is older than a marked
  one, every other flag is unchanged, no pole is added or removed, and the counter
  \<open>harvestedPoles\<close> grows by the number of marked poles.
\<close>

theorem harvest_acts_on_eligible:
  assumes "\<not> gp < 0.3"
  shows "set (maturePoles (poles this)) =
           {i. i < length (poles this) \<and> 3 \<le> ageInYears (poles this ! i)
               \<and> \<not> isHarvested (poles this ! i)}
       \<and> distinct (harvestOrder (poles this))
       \<and> set (harvestOrder (poles this)) = set (maturePoles (poles this))
       \<and> sorted (map (\<lambda>i. - ageInYears (poles this ! i)) (harvestOrder (poles this)))
       \<and> harvestChosen (poles this) =
           take (nat \<lceil>real (card (set (maturePoles (poles this)))) * 0.2\<rceil>) (harvestOrder (poles this))
       \<and> card (set (harvestChosen (poles this))) =
           nat \<lceil>real (card (set (maturePoles (poles this)))) * 0.2\<rceil>
       \<and> set (harvestChosen (poles this)) \<subseteq> set (maturePoles (poles this))
       \<and> (\<forall>i \<in> set (harvestChosen (poles this)).
            \<forall>j \<in> set (maturePoles (poles this)) - set (harvestChosen (poles this)).
              ageInYears (poles this ! j) \<le> ageInYears (poles this ! i))
       \<and> length (poles (harvestMaturePoles gp this)) = length (poles this)
       \<and> (\<forall>i < length (poles this).
            isHarvested (poles (harvestMaturePoles gp this) ! i) =
              (isHarvested (poles this ! i) \<or> i \<in> set (harvestChosen (poles this))))
       \<and> harvestedPoles (harvestMaturePoles gp this) =
           harvestedPoles this + int (card (set (harvestChosen (poles this))))"
proof -
  let ?ps = "poles this"
  have c: "card (set (maturePoles ?ps)) = length (maturePoles ?ps)"
    by (simp add: distinct_card distinct_maturePoles)
  have cc: "card (set (harvestChosen ?ps)) = length (harvestChosen ?ps)"
    by (simp add: distinct_card harvestChosen_props(1))
  have t: "harvestChosen ?ps =
      take (nat \<lceil>real (card (set (maturePoles ?ps))) * 0.2\<rceil>) (harvestOrder ?ps)"
    unfolding c by (simp add: harvestChosen_def polesToHarvest_def)
  have n: "card (set (harvestChosen ?ps)) = nat \<lceil>real (card (set (maturePoles ?ps))) * 0.2\<rceil>"
    unfolding c cc by (simp add: harvestChosen_props(3) polesToHarvest_def)
  have old: "\<forall>i \<in> set (harvestChosen ?ps).
            \<forall>j \<in> set (maturePoles ?ps) - set (harvestChosen ?ps).
              ageInYears (?ps ! j) \<le> ageInYears (?ps ! i)"
    using harvestChosen_oldest[of _ ?ps] by blast
  have len: "length (poles (harvestMaturePoles gp this)) = length ?ps"
    by (simp add: harvestMaturePoles_poles[OF assms])
  have fl: "\<forall>i < length ?ps.
            isHarvested (poles (harvestMaturePoles gp this) ! i) =
              (isHarvested (?ps ! i) \<or> i \<in> set (harvestChosen ?ps))"
    by (simp add: harvestMaturePoles_poles[OF assms])
  have hc: "harvestedPoles (harvestMaturePoles gp this) =
           harvestedPoles this + int (card (set (harvestChosen ?ps)))"
    unfolding cc by (rule harvestMaturePoles_count[OF assms])
  show ?thesis
    using set_maturePoles[of ?ps] harvestOrder_props(1,2,4)[of ?ps] t n
      harvestChosen_props(2)[of ?ps] old len fl hc
    by (intro conjI)
qed


theorem harvest_acts_on_eligible_witness:
  "harvestChosen
     [(fst (makePole 0 0 0.1 (sconst 0)))\<lparr>ageInYears := 4\<rparr>,
      (fst (makePole 1 0 0.1 (sconst 0)))\<lparr>ageInYears := 6\<rparr>,
      (fst (makePole 0 1 0.1 (sconst 0)))\<lparr>ageInYears := 1\<rparr>,
      (fst (makePole 1 1 0.1 (sconst 0)))\<lparr>ageInYears := 5, isHarvested := True\<rparr>] = [1]
   \<and> map isHarvested (poles (harvestMaturePoles 0.6 (emptyClump\<lparr>poles :=
     [(fst (makePole 0 0 0.1 (sconst 0)))\<lparr>ageInYears := 4\<rparr>,
      (fst (makePole 1 0 0.1 (sconst 0)))\<lparr>ageInYears := 6\<rparr>,
      (fst (makePole 0 1 0.1 (sconst 0)))\<lparr>ageInYears := 1\<rparr>,
      (fst (makePole 1 1 0.1 (sconst 0)))\<lparr>ageInYears := 5, isHarvested := True\<rparr>],
      currentPoles := 4, harvestedPoles := 1\<rparr>))) = [False, True, False, True]
   \<and> harvestedPoles (harvestMaturePoles 0.6 (emptyClump\<lparr>poles :=
     [(fst (makePole 0 0 0.1 (sconst 0)))\<lparr>ageInYears := 4\<rparr>,
      (fst (makePole 1 0 0.1 (sconst 0)))\<lparr>ageInYears := 6\<rparr>,
      (fst (makePole 0 1 0.1 (sconst 0)))\<lparr>ageInYears := 1\<rparr>,
      (fst (makePole 1 1 0.1 (sconst 0)))\<lparr>ageInYears := 5, isHarvested := True\<rparr>],
      currentPoles := 4, harvestedPoles := 1\<rparr>)) = 2"
proof -
  let ?ps = "[(fst (makePole 0 0 0.1 (sconst 0)))\<lparr>ageInYears := 4\<rparr>,
      (fst (makePole 1 0 0.1 (sconst 0)))\<lparr>ageInYears := 6\<rparr>,
      (fst (makePole 0 1 0.1 (sconst 0)))\<lparr>ageInYears := 1\<rparr>,
      (fst (makePole 1 1 0.1 (sconst 0)))\<lparr>ageInYears := 5, isHarvested := True\<rparr>]"
  let ?T = "emptyClump\<lparr>poles := ?ps, currentPoles := 4, harvestedPoles := 1\<rparr>"
  have h: "\<not> (0.6::real) < 0.3" by simp
  have m: "maturePoles ?ps = [0, 1]" by (simp add: maturePoles_def)
  have k: "polesToHarvest ?ps = 1" unfolding polesToHarvest_def m by simp
  have ch: "harvestChosen ?ps = [1]"
    unfolding harvestChosen_def k harvestOrder_def m by simp
  note t = harvest_acts_on_eligible[OF h, of ?T]
  have p: "poles ?T = ?ps" by simp
  from t have len: "length (poles (harvestMaturePoles 0.6 ?T)) = length ?ps"
    unfolding p by blast
  from t have fl: "\<forall>i < length ?ps.
      isHarvested (poles (harvestMaturePoles 0.6 ?T) ! i) =
        (isHarvested (?ps ! i) \<or> i \<in> set (harvestChosen ?ps))"
    unfolding p by blast
  from t have cnt: "harvestedPoles (harvestMaturePoles 0.6 ?T) =
      harvestedPoles ?T + int (card (set (harvestChosen ?ps)))"
    unfolding p by blast
  have "map isHarvested (poles (harvestMaturePoles 0.6 ?T)) = [False, True, False, True]"
    using len fl unfolding ch
    by (auto simp: list_eq_iff_nth_eq less_Suc_eq nth_Cons' eval_nat_numeral)
  then show ?thesis using ch cnt by simp
qed

subsection \<open>C6: harvesting is irreversible\<close>

lemma placeOne_poles:
  "\<exists>ys. ps_poles (placeOne s) = ps_poles s @ ys \<and> (\<forall>p \<in> set ys. \<not> isHarvested p) \<and> length ys \<le> 1"
  by (simp add: placeOne_def Let_def split_beta)

lemma placeFor_poles:
  "\<exists>ys. ps_poles (placeFor n s) = ps_poles s @ ys \<and> (\<forall>p \<in> set ys. \<not> isHarvested p) \<and> length ys \<le> n"
proof (induction n arbitrary: s)
  case 0
  then show ?case by simp
next
  case (Suc n)
  obtain ys where ys: "ps_poles (placeOne s) = ps_poles s @ ys" "\<forall>p \<in> set ys. \<not> isHarvested p"
    "length ys \<le> 1"
    using placeOne_poles[of s] by blast
  obtain zs where zs: "ps_poles (placeFor n (placeOne s)) = ps_poles (placeOne s) @ zs"
    "\<forall>p \<in> set zs. \<not> isHarvested p" "length zs \<le> n"
    using Suc.IH[of "placeOne s"] by blast
  have "ps_poles (placeFor (Suc n) s) = ps_poles s @ (ys @ zs)"
    using ys(1) zs(1) by simp
  moreover have "\<forall>p \<in> set (ys @ zs). \<not> isHarvested p" using ys(2) zs(2) by auto
  moreover have "length (ys @ zs) \<le> Suc n" using ys(3) zs(3) by simp
  ultimately show ?case by blast
qed

lemma addNewPoles_poles:
  "\<exists>ys. poles (fst (addNewPoles n this rs)) = poles this @ ys
        \<and> (\<forall>p \<in> set ys. \<not> isHarvested p) \<and> length ys \<le> nat n"
  using placeFor_poles[of "nat n" "\<lparr>ps_existing = initialExistingPositions (poles this),
          ps_poles = poles this, ps_attempts = 0, ps_rng = rs\<rparr>"]
  by (simp add: addNewPoles_def placeAll_def Let_def)

lemma update_grow_poles:
  "\<exists>ys. poles (fst (update_grow p this rs)) = poles this @ ys \<and> (\<forall>q \<in> set ys. \<not> isHarvested q)"
proof (cases "calculatePoleCount (this\<lparr>growthProgress := clampProgress p,
          clumpTargetHeight := calculateHeight (clampProgress p)\<rparr>) (clampProgress p) > currentPoles this")
  case True
  then show ?thesis
    using addNewPoles_poles[of _ "this\<lparr>growthProgress := clampProgress p,
          clumpTargetHeight := calculateHeight (clampProgress p)\<rparr>" rs]
    by (simp add: update_grow_def Let_def) blast
next
  case False
  then show ?thesis by (simp add: update_grow_def Let_def)
qed

lemma updatePole_fields [simp]:
  "isHarvested (fst (updatePole gp th pole rs)) = isHarvested pole"
  "position_x (mesh (fst (updatePole gp th pole rs))) = position_x (mesh pole)"
  "position_z (mesh (fst (updatePole gp th pole rs))) = position_z (mesh pole)"
  "geometry_radiusBottom (mesh (fst (updatePole gp th pole rs))) = geometry_radiusBottom (mesh pole)"
  by (simp_all add: updatePole_def Let_def split_beta)

lemma updatePoles_length [simp]: "length (fst (updatePoles gp th ps rs)) = length ps"
  by (induction ps arbitrary: rs) (simp_all add: split_beta Let_def)

lemma updatePoles_nth:
  "i < length ps \<Longrightarrow>
     isHarvested (fst (updatePoles gp th ps rs) ! i) = isHarvested (ps ! i)
   \<and> position_x (mesh (fst (updatePoles gp th ps rs) ! i)) = position_x (mesh (ps ! i))
   \<and> position_z (mesh (fst (updatePoles gp th ps rs) ! i)) = position_z (mesh (ps ! i))
   \<and> geometry_radiusBottom (mesh (fst (updatePoles gp th ps rs) ! i))
       = geometry_radiusBottom (mesh (ps ! i))"
proof (induction ps arbitrary: rs i)
  case Nil
  then show ?case by simp
next
  case (Cons a ps)
  then show ?case by (cases i) (simp_all add: split_beta Let_def)
qed

lemma updatePoles_flags: "map isHarvested (fst (updatePoles gp th ps rs)) = map isHarvested ps"
  by (simp add: list_eq_iff_nth_eq updatePoles_nth)

lemma update_poles_poles:
  "poles (fst (update_poles this rs)) =
     fst (updatePoles (growthProgress this) (clumpTargetHeight this) (poles this) rs)"
  by (simp add: update_poles_def split_beta)

lemma length_filter_upt: "length (filter P [0..<n]) = card {i. i < n \<and> P i}"
proof -
  have "distinct (filter P [0..<n])" by simp
  then have "length (filter P [0..<n]) = card (set (filter P [0..<n]))"
    by (simp only: distinct_card)
  also have "set (filter P [0..<n]) = {i. i < n \<and> P i}" by auto
  finally show ?thesis .
qed

lemma harvested_flags_count:
  assumes "\<not> gp < 0.3"
  shows "length (filter isHarvested (poles (harvestMaturePoles gp this))) =
           length (filter isHarvested (poles this)) + length (harvestChosen (poles this))"
proof -
  let ?ps = "poles this"
  let ?C = "set (harvestChosen ?ps)"
  let ?H = "{i. i < length ?ps \<and> isHarvested (?ps ! i)}"
  have sub: "?C \<subseteq> {i. i < length ?ps \<and> \<not> isHarvested (?ps ! i)}"
    using harvestChosen_props(2)[of ?ps] by (auto simp: set_maturePoles)
  have "length (filter isHarvested (poles (harvestMaturePoles gp this))) =
          card {i. i < length ?ps \<and> (i \<in> ?C \<or> isHarvested (?ps ! i))}"
    unfolding harvestMaturePoles_poles[OF assms] filter_map length_map length_filter_upt
    by (rule arg_cong[where f = card]) (auto simp: comp_def)
  also have "{i. i < length ?ps \<and> (i \<in> ?C \<or> isHarvested (?ps ! i))} = ?H \<union> ?C"
    using sub by auto
  also have "card (?H \<union> ?C) = card ?H + card ?C"
    using sub by (intro card_Un_disjoint) auto
  also have "card ?H = length (filter isHarvested ?ps)"
    by (simp add: length_filter_conv_card)
  also have "card ?C = length (harvestChosen ?ps)"
    by (simp add: distinct_card harvestChosen_props(1))
  finally show ?thesis .
qed

lemma countOK_harvest: "countOK this \<Longrightarrow> countOK (harvestMaturePoles gp this)"
proof (cases "gp < 0.3")
  case True
  assume "countOK this"
  then show ?thesis using True by (simp add: harvestMaturePoles_early)
next
  case False
  assume "countOK this"
  then show ?thesis
    using harvested_flags_count[OF False, of this] harvestMaturePoles_count[OF False, of this]
    by (simp add: countOK_def)
qed

lemma countOK_grow: "countOK this \<Longrightarrow> countOK (fst (update_grow p this rs))"
proof -
  assume a: "countOK this"
  obtain ys where ys: "poles (fst (update_grow p this rs)) = poles this @ ys"
    "\<forall>q \<in> set ys. \<not> isHarvested q"
    using update_grow_poles[of p this rs] by blast
  have "filter isHarvested ys = []" using ys(2) by (simp add: filter_empty_conv)
  then show ?thesis using a ys(1) by (simp add: countOK_def)
qed

lemma countOK_update_harvest: "countOK this \<Longrightarrow> countOK (fst (update_harvest this rs))"
  by (simp add: update_harvest_def split_beta countOK_harvest)

lemma filter_flags_cong:
  "map isHarvested xs = map isHarvested ys \<Longrightarrow>
     length (filter isHarvested xs) = length (filter isHarvested ys)"
proof -
  assume a: "map isHarvested xs = map isHarvested ys"
  have "length (filter isHarvested xs) = length (filter id (map isHarvested xs))"
    by (simp add: filter_map comp_def)
  also have "\<dots> = length (filter id (map isHarvested ys))" using a by simp
  also have "\<dots> = length (filter isHarvested ys)" by (simp add: filter_map comp_def)
  finally show ?thesis .
qed

lemma countOK_update_poles: "countOK this \<Longrightarrow> countOK (fst (update_poles this rs))"
  using filter_flags_cong[OF updatePoles_flags[of "growthProgress this" "clumpTargetHeight this" "poles this" rs]]
  by (simp add: countOK_def update_poles_poles)

lemma countOK_update: "countOK this \<Longrightarrow> countOK (fst (snd (update p this rs)))"
  by (simp add: update_state countOK_grow countOK_update_harvest countOK_update_poles)

lemma countOK_new: "countOK (fst (newBambooClump rs))"
proof -
  obtain ys where ys: "poles (fst (addNewPoles 5 emptyClump rs)) = poles emptyClump @ ys"
    "\<forall>q \<in> set ys. \<not> isHarvested q"
    using addNewPoles_poles[of 5 emptyClump rs] by blast
  have "filter isHarvested ys = []" using ys(2) by (simp add: filter_empty_conv)
  then show ?thesis using ys(1) by (simp add: countOK_def newBambooClump_def emptyClump_def)
qed

lemma reachable_countOK: "reachable this \<Longrightarrow> countOK this"
  by (induction rule: reachable.induct) (simp_all add: countOK_new countOK_update countOK_harvest)


lemma harvest_length [simp]: "length (poles (harvestMaturePoles gp this)) = length (poles this)"
  by (cases "gp < 0.3") (simp_all add: harvestMaturePoles_early harvestMaturePoles_poles)

lemma harvest_flag_kept:
  "i < length (poles this) \<Longrightarrow> isHarvested (poles this ! i) \<Longrightarrow>
     isHarvested (poles (harvestMaturePoles gp this) ! i)"
  by (cases "gp < 0.3") (simp_all add: harvestMaturePoles_early harvestMaturePoles_poles)

lemma harvest_counter_mono: "harvestedPoles this \<le> harvestedPoles (harvestMaturePoles gp this)"
  by (cases "gp < 0.3") (simp_all add: harvestMaturePoles_early harvestMaturePoles_count)

lemma update_harvest_poles:
  "length (poles (fst (update_harvest this rs))) = length (poles this)"
  "i < length (poles this) \<Longrightarrow> isHarvested (poles this ! i) \<Longrightarrow>
     isHarvested (poles (fst (update_harvest this rs)) ! i)"
  "harvestedPoles this \<le> harvestedPoles (fst (update_harvest this rs))"
  by (simp_all add: update_harvest_def split_beta harvest_flag_kept harvest_counter_mono)

lemma update_poles_nth:
  "length (poles (fst (update_poles this rs))) = length (poles this)"
  "i < length (poles this) \<Longrightarrow>
     isHarvested (poles (fst (update_poles this rs)) ! i) = isHarvested (poles this ! i)"
  by (simp_all add: update_poles_poles updatePoles_nth)

lemma update_preserves:
  "harvestedPoles this \<le> harvestedPoles (fst (snd (update p this rs)))"
  "length (poles this) \<le> length (poles (fst (snd (update p this rs))))"
  "i < length (poles this) \<Longrightarrow> isHarvested (poles this ! i) \<Longrightarrow>
     isHarvested (poles (fst (snd (update p this rs))) ! i)"
proof -
  let ?g = "fst (update_grow p this rs)"
  let ?h = "fst (update_harvest ?g (snd (update_grow p this rs)))"
  let ?u = "fst (update_poles ?h (snd (update_harvest ?g (snd (update_grow p this rs)))))"
  have u: "fst (snd (update p this rs)) = ?u" by (rule update_state)
  obtain ys where ys: "poles ?g = poles this @ ys"
    using update_grow_poles[of p this rs] by blast
  have "harvestedPoles this = harvestedPoles ?g" by simp
  also have "\<dots> \<le> harvestedPoles ?h" by (rule update_harvest_poles(3))
  also have "\<dots> = harvestedPoles ?u" by simp
  finally show "harvestedPoles this \<le> harvestedPoles (fst (snd (update p this rs)))"
    unfolding u .
  have l: "length (poles ?u) = length (poles ?g)"
    by (simp add: update_poles_nth(1) update_harvest_poles(1))
  then show "length (poles this) \<le> length (poles (fst (snd (update p this rs))))"
    unfolding u using ys by simp
  assume i: "i < length (poles this)" and h: "isHarvested (poles this ! i)"
  have ig: "i < length (poles ?g)" using i ys by simp
  have "isHarvested (poles ?g ! i)" using i h ys by (simp add: nth_append)
  then have "isHarvested (poles ?h ! i)" using ig by (rule update_harvest_poles(2)[rotated])
  moreover have "i < length (poles ?h)" using ig by (simp add: update_harvest_poles(1))
  ultimately have "isHarvested (poles ?u ! i)" by (simp add: update_poles_nth(2))
  then show "isHarvested (poles (fst (snd (update p this rs))) ! i)" unfolding u .
qed

lemma unitStream_sconst: "0 \<le> r \<Longrightarrow> r < 1 \<Longrightarrow> unitStream (sconst r)"
  by (simp add: unitStream_def)

text \<open>
  Claim C6. In every state that a simulation reaches, the counter \<open>harvestedPoles\<close> is the
  number of poles whose flag is set, hence at most the number of poles ever created
  (no pole is ever removed). Every further \<open>update\<close> and every harvest leaves the counter
  where it was or raises it, keeps every pole, and keeps every flag that is set.
\<close>

theorem harvest_irreversible:
  assumes "reachable this"
  shows "harvestedPoles this = int (length (filter isHarvested (poles this)))
       \<and> harvestedPoles this \<le> int (length (poles this))
       \<and> harvestedPoles this \<le> harvestedPoles (fst (snd (update p this rs)))
       \<and> length (poles this) \<le> length (poles (fst (snd (update p this rs))))
       \<and> (\<forall>i < length (poles this). isHarvested (poles this ! i) \<longrightarrow>
              isHarvested (poles (fst (snd (update p this rs))) ! i))
       \<and> harvestedPoles this \<le> harvestedPoles (harvestMaturePoles gp this)
       \<and> length (poles (harvestMaturePoles gp this)) = length (poles this)
       \<and> (\<forall>i < length (poles this). isHarvested (poles this ! i) \<longrightarrow>
              isHarvested (poles (harvestMaturePoles gp this) ! i))"
proof -
  have c: "harvestedPoles this = int (length (filter isHarvested (poles this)))"
    using reachable_countOK[OF assms] by (simp add: countOK_def)
  have "length (filter isHarvested (poles this)) \<le> length (poles this)" by simp
  then have b: "harvestedPoles this \<le> int (length (poles this))" unfolding c by simp
  show ?thesis
    by (intro conjI allI impI c b update_preserves harvest_counter_mono harvest_flag_kept
          harvest_length)
qed

subsection \<open>The placement loops\<close>

lemma placeWhile_stop:
  "validPosition c \<or> \<not> k < maxAttempts \<Longrightarrow> placeWhile eps c k rs = (c, k, rs)"
  by (subst placeWhile.simps) auto

lemma placeWhile_step:
  "\<not> validPosition c \<Longrightarrow> k < maxAttempts \<Longrightarrow>
     placeWhile eps c k rs =
       placeWhile eps (fst (drawCandidate eps rs)) (k + 1) (snd (drawCandidate eps rs))"
  by (subst placeWhile.simps) simp

lemma placeWhile_attempts:
  "attemptsCounter \<le> fst (snd (placeWhile eps c attemptsCounter rs))
   \<and> fst (snd (placeWhile eps c attemptsCounter rs)) \<le> max attemptsCounter maxAttempts"
proof (induction eps c attemptsCounter rs rule: placeWhile.induct)
  case (1 eps c k rs)
  show ?case
  proof (cases "\<not> validPosition c \<and> k < maxAttempts")
    case True
    then show ?thesis using 1[OF True] by (simp add: placeWhile_step max_def)
  next
    case False
    then have "placeWhile eps c k rs = (c, k, rs)" by (intro placeWhile_stop) auto
    then show ?thesis by simp
  qed
qed

lemma drawCandidate_rng: "snd (drawCandidate eps rs) = sdrop 4 rs"
  by (simp add: drawCandidate_def Math_random_def Let_def split_beta eval_nat_numeral)

lemma placeWhile_rng:
  "snd (snd (placeWhile eps c k rs)) = sdrop (4 * (fst (snd (placeWhile eps c k rs)) - k)) rs"
proof (induction eps c k rs rule: placeWhile.induct)
  case (1 eps c k rs)
  show ?case
  proof (cases "\<not> validPosition c \<and> k < maxAttempts")
    case True
    let ?r = "placeWhile eps (fst (drawCandidate eps rs)) (k + 1) (snd (drawCandidate eps rs))"
    have e: "placeWhile eps c k rs = ?r" using True by (simp add: placeWhile_step)
    have le: "k + 1 \<le> fst (snd ?r)" using placeWhile_attempts by blast
    have "snd (snd ?r) = sdrop (4 * (fst (snd ?r) - (k + 1))) (sdrop 4 rs)"
      using 1[OF True] by (simp add: drawCandidate_rng)
    also have "\<dots> = sdrop (4 + 4 * (fst (snd ?r) - (k + 1))) rs" by (simp add: sdrop_add)
    also have "4 + 4 * (fst (snd ?r) - (k + 1)) = 4 * (fst (snd ?r) - k)" using le by simp
    finally show ?thesis unfolding e .
  next
    case False
    then have "placeWhile eps c k rs = (c, k, rs)" by (intro placeWhile_stop) auto
    then show ?thesis by simp
  qed
qed

lemma placeWhile_exhausted:
  "maxAttempts \<le> k \<Longrightarrow> placeWhile eps c k rs = (c, k, rs)"
  by (intro placeWhile_stop) simp

lemma placeOne_skip:
  "\<not> validPosition (fst (placeWhile (ps_existing s) initialCandidate (ps_attempts s) (ps_rng s)))
   \<Longrightarrow> ps_poles (placeOne s) = ps_poles s \<and> ps_existing (placeOne s) = ps_existing s"
  by (simp add: placeOne_def Let_def split_beta)

lemma placeOne_exhausted: "maxAttempts \<le> ps_attempts s \<Longrightarrow> placeOne s = s"
  by (simp add: placeOne_def placeWhile_exhausted initialCandidate_def)

lemma placeFor_exhausted: "maxAttempts \<le> ps_attempts s \<Longrightarrow> placeFor n s = s"
  by (induction n) (simp_all add: placeOne_exhausted)

lemma placeOne_attempts:
  "ps_attempts s \<le> ps_attempts (placeOne s)
   \<and> ps_attempts (placeOne s) \<le> max (ps_attempts s) maxAttempts"
  using placeWhile_attempts[of "ps_attempts s" "ps_existing s" initialCandidate "ps_rng s"]
  by (simp add: placeOne_def Let_def split_beta)

lemma placeFor_attempts:
  "ps_attempts s \<le> maxAttempts \<Longrightarrow> ps_attempts (placeFor n s) \<le> maxAttempts"
proof (induction n arbitrary: s)
  case 0
  then show ?case by simp
next
  case (Suc n)
  have "ps_attempts (placeOne s) \<le> maxAttempts"
    using placeOne_attempts[of s] Suc.prems by (simp add: max_def split: if_splits)
  then show ?case using Suc.IH by simp
qed

lemma placeOne_rng:
  "ps_rng (placeOne s) =
     sdrop (4 * (ps_attempts (placeOne s) - ps_attempts s)
            + 11 * (length (ps_poles (placeOne s)) - length (ps_poles s))) (ps_rng s)"
proof -
  let ?w = "placeWhile (ps_existing s) initialCandidate (ps_attempts s) (ps_rng s)"
  show ?thesis
  proof (cases "validPosition (fst ?w)")
    case True
    then show ?thesis
      using placeWhile_rng[of "ps_existing s" initialCandidate "ps_attempts s" "ps_rng s"]
      by (simp add: placeOne_def Let_def split_beta makePole_rng add.commute)
  next
    case False
    then show ?thesis
      using placeWhile_rng[of "ps_existing s" initialCandidate "ps_attempts s" "ps_rng s"]
      by (simp add: placeOne_def Let_def split_beta)
  qed
qed

lemma placeOne_length: "length (ps_poles s) \<le> length (ps_poles (placeOne s))"
  using placeOne_poles[of s] by auto

lemma placeFor_mono:
  "ps_attempts s \<le> ps_attempts (placeFor n s) \<and> length (ps_poles s) \<le> length (ps_poles (placeFor n s))"
proof (induction n arbitrary: s)
  case 0
  then show ?case by simp
next
  case (Suc n)
  show ?case
    using Suc.IH[of "placeOne s"] placeOne_attempts[of s] placeOne_length[of s] by simp
qed

lemma placeFor_rng:
  "ps_rng (placeFor n s) =
     sdrop (4 * (ps_attempts (placeFor n s) - ps_attempts s)
            + 11 * (length (ps_poles (placeFor n s)) - length (ps_poles s))) (ps_rng s)"
proof (induction n arbitrary: s)
  case 0
  then show ?case by simp
next
  case (Suc n)
  let ?s1 = "placeOne s"
  let ?s2 = "placeFor n ?s1"
  have a: "ps_attempts s \<le> ps_attempts ?s1" "ps_attempts ?s1 \<le> ps_attempts ?s2"
    using placeOne_attempts[of s] placeFor_mono[of ?s1 n] by simp_all
  have l: "length (ps_poles s) \<le> length (ps_poles ?s1)"
    "length (ps_poles ?s1) \<le> length (ps_poles ?s2)"
    using placeOne_length[of s] placeFor_mono[of ?s1 n] by simp_all
  have "ps_rng ?s2 =
      sdrop (4 * (ps_attempts ?s2 - ps_attempts ?s1)
            + 11 * (length (ps_poles ?s2) - length (ps_poles ?s1))) (ps_rng ?s1)"
    by (rule Suc.IH)
  also have "ps_rng ?s1 = sdrop (4 * (ps_attempts ?s1 - ps_attempts s)
            + 11 * (length (ps_poles ?s1) - length (ps_poles s))) (ps_rng s)"
    by (rule placeOne_rng)
  finally have "ps_rng ?s2 =
      sdrop ((4 * (ps_attempts ?s1 - ps_attempts s)
            + 11 * (length (ps_poles ?s1) - length (ps_poles s)))
           + (4 * (ps_attempts ?s2 - ps_attempts ?s1)
            + 11 * (length (ps_poles ?s2) - length (ps_poles ?s1)))) (ps_rng s)"
    by (simp only: sdrop_add)
  also have "(4 * (ps_attempts ?s1 - ps_attempts s)
            + 11 * (length (ps_poles ?s1) - length (ps_poles s)))
           + (4 * (ps_attempts ?s2 - ps_attempts ?s1)
            + 11 * (length (ps_poles ?s2) - length (ps_poles ?s1)))
        = 4 * (ps_attempts ?s2 - ps_attempts s)
            + 11 * (length (ps_poles ?s2) - length (ps_poles s))"
    using a l by simp
  finally show ?case by simp
qed


lemma placeWhile_reject_const:
  assumes "snd (drawCandidate eps rs) = rs"
    and "\<not> validPosition (fst (drawCandidate eps rs))"
    and "\<not> validPosition c"
  shows "\<not> validPosition (fst (placeWhile eps c k rs))
       \<and> fst (snd (placeWhile eps c k rs)) = max k maxAttempts
       \<and> snd (snd (placeWhile eps c k rs)) = rs"
  using assms(3)
proof (induction "maxAttempts - k" arbitrary: c k)
  case 0
  then have "placeWhile eps c k rs = (c, k, rs)" by (intro placeWhile_stop) simp
  then show ?case using 0 by (simp add: max_def)
next
  case (Suc m)
  then have lt: "k < maxAttempts" by simp
  have e: "placeWhile eps c k rs = placeWhile eps (fst (drawCandidate eps rs)) (k + 1) rs"
    using placeWhile_step[OF Suc.prems lt, of eps rs] assms(1) by simp
  have "m = maxAttempts - (k + 1)" using Suc.hyps(2) by simp
  then show ?case
    unfolding e using Suc.hyps(1)[of "k + 1" "fst (drawCandidate eps rs)"] assms(2) lt
    by (simp add: max_def)
qed

lemma placeWhile_accept_first:
  assumes "validPosition (fst (drawCandidate eps rs))" and "\<not> validPosition c"
    and "k < maxAttempts"
  shows "placeWhile eps c k rs = (fst (drawCandidate eps rs), k + 1, snd (drawCandidate eps rs))"
  using placeWhile_step[OF assms(2,3), of eps rs] assms(1)
  by (simp add: placeWhile_stop)

subsection \<open>A run on the stream of zeros\<close>

text \<open>
  When every draw is 0, every candidate is the origin with thickness 0.06: the first is
  accepted, and each later one overlaps it until the attempts are used up.
\<close>

lemma sdrop_sconst [simp]: "sdrop n (sconst x) = sconst x"
  by (induction n) simp_all

lemma drawCandidate_zero:
  "drawCandidate eps (sconst 0) =
     (\<lparr>validPosition = \<not> list_ex (tooClose 0 0 0.06) eps,
       cand_x = 0, cand_z = 0, cand_thickness = 0.06\<rparr>, sconst 0)"
  by (simp add: drawCandidate_def Math_random_def Let_def)

lemma tooClose_origin:
  "tooClose 0 0 t \<lparr>ep_x = 0, ep_z = 0, ep_radius = r\<rparr> = (0 < t + r)"
  by (simp add: tooClose_def)

lemma placeOne_zero_first:
  "placeOne \<lparr>ps_existing = [], ps_poles = [], ps_attempts = 0, ps_rng = sconst 0\<rparr> =
     \<lparr>ps_existing = [\<lparr>ep_x = 0, ep_z = 0, ep_radius = 0.072\<rparr>],
      ps_poles = [fst (makePole 0 0 0.06 (sconst 0))], ps_attempts = 1, ps_rng = sconst 0\<rparr>"
proof -
  have w: "placeWhile [] initialCandidate 0 (sconst 0) =
      (\<lparr>validPosition = True, cand_x = 0, cand_z = 0, cand_thickness = 0.06\<rparr>, 1, sconst 0)"
    using placeWhile_accept_first[of "[]" "sconst 0" initialCandidate 0]
    by (simp add: drawCandidate_zero initialCandidate_def maxAttempts_def)
  show ?thesis by (simp add: placeOne_def w split_beta makePole_rng)
qed

lemma placeOne_zero_blocked:
  assumes "list_ex (tooClose 0 0 0.06) (ps_existing s)" and "ps_rng s = sconst 0"
  shows "placeOne s = s\<lparr>ps_attempts := max (ps_attempts s) maxAttempts\<rparr>"
proof -
  have a: "snd (drawCandidate (ps_existing s) (sconst 0)) = sconst 0"
    by (simp add: drawCandidate_zero)
  have b: "\<not> validPosition (fst (drawCandidate (ps_existing s) (sconst 0)))"
    using assms(1) by (simp add: drawCandidate_zero)
  have c: "\<not> validPosition initialCandidate" by (simp add: initialCandidate_def)
  show ?thesis
    using placeWhile_reject_const[OF a b c, of "ps_attempts s"] assms(2)
    by (simp add: placeOne_def split_beta)
qed

lemma placeFor_numeral:
  "placeFor (numeral k) s = placeFor (pred_numeral k) (placeOne s)"
  by (simp add: numeral_eq_Suc)

lemma placeFor_zero_blocked:
  assumes "list_ex (tooClose 0 0 0.06) (ps_existing s)" and "ps_rng s = sconst 0"
  shows "placeFor (numeral k) s = s\<lparr>ps_attempts := max (ps_attempts s) maxAttempts\<rparr>"
  using placeOne_zero_blocked[OF assms] by (simp add: placeFor_numeral placeFor_exhausted)

lemma newBambooClump_zero:
  "newBambooClump (sconst 0) =
     (emptyClump\<lparr>poles := [fst (makePole 0 0 0.06 (sconst 0))], currentPoles := 5\<rparr>, sconst 0)"
proof -
  have "placeFor 5 \<lparr>ps_existing = [], ps_poles = [], ps_attempts = 0, ps_rng = sconst 0\<rparr> =
      \<lparr>ps_existing = [\<lparr>ep_x = 0, ep_z = 0, ep_radius = 0.072\<rparr>],
       ps_poles = [fst (makePole 0 0 0.06 (sconst 0))], ps_attempts = 100, ps_rng = sconst 0\<rparr>"
    unfolding placeFor_numeral[of "num.Bit1 (num.Bit0 num.One)"] placeOne_zero_first
    by (simp add: placeFor_zero_blocked tooClose_origin maxAttempts_def)
  then show ?thesis
    by (simp add: newBambooClump_def addNewPoles_def placeAll_def emptyClump_def
          initialExistingPositions_def)
qed


subsection \<open>C6: a run with a harvest\<close>

text \<open>
  On the stream of zeros the clump keeps its single pole at the origin, and every draw
  for the harvest triggers it. The first \<open>update\<close> at progress 0.6 finds the pole at age
  0 and harvests nothing; it leaves the pole at age 6. The second harvests it: the
  counter rises from 0 to 1 and the flag of the pole is set. From that state a further
  \<open>update\<close>, at the lower progress 0.2, and a further harvest keep the flag and do not
  lower the counter.
\<close>

lemma updatePole_age [simp]: "ageInYears (fst (updatePole gp th pole rs)) = gp * 10"
  by (simp add: updatePole_def Let_def split_beta)

lemma placeFor_blocked_any:
  assumes "list_ex (tooClose 0 0 0.06) (ps_existing s)" and "ps_rng s = sconst 0"
  shows "ps_poles (placeFor n s) = ps_poles s \<and> ps_rng (placeFor n s) = sconst 0"
proof (cases n)
  case 0
  then show ?thesis using assms(2) by simp
next
  case (Suc k)
  have "placeFor (Suc k) s = placeFor k (s\<lparr>ps_attempts := max (ps_attempts s) maxAttempts\<rparr>)"
    using placeOne_zero_blocked[OF assms] by simp
  also have "\<dots> = s\<lparr>ps_attempts := max (ps_attempts s) maxAttempts\<rparr>"
    by (rule placeFor_exhausted) simp
  finally show ?thesis using Suc assms(2) by simp
qed

lemma addNewPoles_zero_blocked:
  assumes "list_ex (tooClose 0 0 0.06) (initialExistingPositions (poles this))"
  shows "addNewPoles n this (sconst 0) = (this\<lparr>currentPoles := currentPoles this + n\<rparr>, sconst 0)"
  using placeFor_blocked_any[of "\<lparr>ps_existing = initialExistingPositions (poles this),
          ps_poles = poles this, ps_attempts = 0, ps_rng = sconst 0\<rparr>" "nat n"] assms
  by (simp add: addNewPoles_def placeAll_def Let_def)

lemma lone_blocked:
  assumes "poles this = [q]" and "\<not> isHarvested q"
    and "position_x (mesh q) = 0" and "position_z (mesh q) = 0"
    and "0 \<le> geometry_radiusBottom (mesh q)"
  shows "list_ex (tooClose 0 0 0.06) (initialExistingPositions (poles this))"
  using assms
  by (simp add: initialExistingPositions_def existingPositionOf_def tooClose_origin
        add_pos_nonneg)

lemma lone_grow:
  assumes "poles this = [q]" and "\<not> isHarvested q"
    and "position_x (mesh q) = 0" and "position_z (mesh q) = 0"
    and "0 \<le> geometry_radiusBottom (mesh q)"
  shows "poles (fst (update_grow p this (sconst 0))) = [q]"
    and "snd (update_grow p this (sconst 0)) = sconst 0"
proof -
  let ?t = "this\<lparr>growthProgress := clampProgress p,
          clumpTargetHeight := calculateHeight (clampProgress p)\<rparr>"
  have b: "list_ex (tooClose 0 0 0.06) (initialExistingPositions (poles ?t))"
    using lone_blocked[of ?t q] assms by simp
  show "poles (fst (update_grow p this (sconst 0))) = [q]"
    using assms(1) by (simp add: update_grow_def Let_def addNewPoles_zero_blocked[OF b])
  show "snd (update_grow p this (sconst 0)) = sconst 0"
    by (simp add: update_grow_def Let_def addNewPoles_zero_blocked[OF b])
qed

lemma lone_harvest:
  assumes "poles this = [q]" and "\<not> isHarvested q" and "\<not> gp < 0.3"
  shows "poles (harvestMaturePoles gp this) = [if 3 \<le> ageInYears q then markHarvested q else q]"
    and "harvestedPoles (harvestMaturePoles gp this) =
           harvestedPoles this + (if 3 \<le> ageInYears q then 1 else 0)"
proof -
  have m: "maturePoles [q] = (if 3 \<le> ageInYears q then [0] else [])"
    using assms(2) by (simp add: maturePoles_def)
  have k: "\<lceil>(1::real) / 5\<rceil> = 1" by (simp add: ceiling_eq_iff)
  have c: "harvestChosen [q] = (if 3 \<le> ageInYears q then [0] else [])"
    by (simp add: harvestChosen_def polesToHarvest_def harvestOrder_def m k)
  show "poles (harvestMaturePoles gp this) = [if 3 \<le> ageInYears q then markHarvested q else q]"
    using harvestMaturePoles_poles[OF assms(3), of this] assms(1) by (simp add: c)
  show "harvestedPoles (harvestMaturePoles gp this) =
           harvestedPoles this + (if 3 \<le> ageInYears q then 1 else 0)"
    using harvestMaturePoles_count[OF assms(3), of this] assms(1) by (simp add: c)
qed

lemma lone_update:
  assumes "poles this = [q]" and "\<not> isHarvested q"
    and "position_x (mesh q) = 0" and "position_z (mesh q) = 0"
    and "0 \<le> geometry_radiusBottom (mesh q)"
  shows "\<exists>q'. poles (fst (snd (update p this (sconst 0)))) = [q']
           \<and> position_x (mesh q') = 0 \<and> position_z (mesh q') = 0
           \<and> geometry_radiusBottom (mesh q') = geometry_radiusBottom (mesh q)
           \<and> ageInYears q' = clampProgress p * 10
           \<and> isHarvested q' = (0.5 < clampProgress p \<and> 3 \<le> ageInYears q)
           \<and> harvestedPoles (fst (snd (update p this (sconst 0)))) =
               harvestedPoles this + (if 0.5 < clampProgress p \<and> 3 \<le> ageInYears q then 1 else 0)"
proof -
  let ?g = "fst (update_grow p this (sconst 0))"
  let ?h = "fst (update_harvest ?g (sconst 0))"
  have g: "poles ?g = [q]" "snd (update_grow p this (sconst 0)) = sconst 0"
    using lone_grow[OF assms] by simp_all
  have hdef: "?h = (if 0.5 < clampProgress p then harvestMaturePoles (clampProgress p) ?g else ?g)"
    by (simp add: update_harvest_def Math_random_def)
  have hr: "snd (update_harvest ?g (sconst 0)) = sconst 0"
    by (simp add: update_harvest_def Math_random_def)
  let ?q1 = "if 0.5 < clampProgress p \<and> 3 \<le> ageInYears q then markHarvested q else q"
  have hp: "poles ?h = [?q1]"
    and hc: "harvestedPoles ?h =
       harvestedPoles this + (if 0.5 < clampProgress p \<and> 3 \<le> ageInYears q then 1 else 0)"
  proof -
    show "poles ?h = [?q1]"
    proof (cases "0.5 < clampProgress p")
      case True
      then have "\<not> clampProgress p < 0.3" by simp
      then show ?thesis
        unfolding hdef using True lone_harvest(1)[OF g(1) assms(2), of "clampProgress p"]
        by simp
    next
      case False
      then show ?thesis unfolding hdef using g(1) by simp
    qed
    show "harvestedPoles ?h =
       harvestedPoles this + (if 0.5 < clampProgress p \<and> 3 \<le> ageInYears q then 1 else 0)"
    proof (cases "0.5 < clampProgress p")
      case True
      then have "\<not> clampProgress p < 0.3" by simp
      then show ?thesis
        unfolding hdef using True lone_harvest(2)[OF g(1) assms(2), of "clampProgress p"]
        by simp
    next
      case False
      then show ?thesis unfolding hdef by simp
    qed
  qed
  let ?q2 = "fst (updatePole (clampProgress p) (calculateHeight (clampProgress p)) ?q1 (sconst 0))"
  have u: "fst (snd (update p this (sconst 0))) = fst (update_poles ?h (sconst 0))"
    by (simp add: update_state g(2) hr)
  have up: "poles (fst (update_poles ?h (sconst 0))) = [?q2]"
    by (simp add: update_poles_poles hp split_beta)
  have "isHarvested ?q2 = (0.5 < clampProgress p \<and> 3 \<le> ageInYears q)"
    using assms(2) by simp
  moreover have "position_x (mesh ?q2) = 0" "position_z (mesh ?q2) = 0"
    "geometry_radiusBottom (mesh ?q2) = geometry_radiusBottom (mesh q)"
    using assms(3,4) by simp_all
  moreover have "ageInYears ?q2 = clampProgress p * 10" by simp
  moreover have "harvestedPoles (fst (update_poles ?h (sconst 0))) =
       harvestedPoles this + (if 0.5 < clampProgress p \<and> 3 \<le> ageInYears q then 1 else 0)"
    using hc by simp
  ultimately show ?thesis unfolding u using up by blast
qed


theorem harvest_irreversible_witness:
  "harvestedPoles (fst (snd (update 0.6 (fst (newBambooClump (sconst 0))) (sconst 0)))) = 0
   \<and> harvestedPoles (fst (snd (update 0.6
         (fst (snd (update 0.6 (fst (newBambooClump (sconst 0))) (sconst 0)))) (sconst 0)))) = 1
   \<and> isHarvested (poles (fst (snd (update 0.6
         (fst (snd (update 0.6 (fst (newBambooClump (sconst 0))) (sconst 0)))) (sconst 0)))) ! 0)
   \<and> harvestedPoles (fst (snd (update 0.6 (fst (newBambooClump (sconst 0))) (sconst 0))))
       \<le> harvestedPoles (fst (snd (update 0.6
         (fst (snd (update 0.6 (fst (newBambooClump (sconst 0))) (sconst 0)))) (sconst 0))))
   \<and> harvestedPoles (fst (snd (update 0.6
         (fst (snd (update 0.6 (fst (newBambooClump (sconst 0))) (sconst 0)))) (sconst 0))))
       \<le> int (length (poles (fst (snd (update 0.6
         (fst (snd (update 0.6 (fst (newBambooClump (sconst 0))) (sconst 0)))) (sconst 0))))))
   \<and> harvestedPoles (fst (snd (update 0.6
         (fst (snd (update 0.6 (fst (newBambooClump (sconst 0))) (sconst 0)))) (sconst 0))))
       \<le> harvestedPoles (fst (snd (update 0.2 (fst (snd (update 0.6
         (fst (snd (update 0.6 (fst (newBambooClump (sconst 0))) (sconst 0)))) (sconst 0))))
         (sconst 0))))
   \<and> isHarvested (poles (fst (snd (update 0.2 (fst (snd (update 0.6
         (fst (snd (update 0.6 (fst (newBambooClump (sconst 0))) (sconst 0)))) (sconst 0))))
         (sconst 0)))) ! 0)
   \<and> isHarvested (poles (harvestMaturePoles 0.9 (fst (snd (update 0.6
         (fst (snd (update 0.6 (fst (newBambooClump (sconst 0))) (sconst 0)))) (sconst 0))))) ! 0)"
proof -
  let ?T0 = "fst (newBambooClump (sconst 0))"
  let ?T1 = "fst (snd (update 0.6 ?T0 (sconst 0)))"
  let ?T2 = "fst (snd (update 0.6 ?T1 (sconst 0)))"
  let ?T3 = "fst (snd (update 0.2 ?T2 (sconst 0)))"
  let ?P0 = "fst (makePole 0 0 0.06 (sconst 0))"
  have u: "unitStream (sconst 0)" by (simp add: unitStream_sconst)
  have r0: "reachable ?T0" by (rule reachable_new[OF u])
  have r1: "reachable ?T1" by (rule reachable_update[OF r0 u])
  have r2: "reachable ?T2" by (rule reachable_update[OF r1 u])
  have p0: "poles ?T0 = [?P0]" "harvestedPoles ?T0 = 0"
    by (simp_all add: newBambooClump_zero emptyClump_def)
  obtain q1 where q1: "poles ?T1 = [q1]" "position_x (mesh q1) = 0" "position_z (mesh q1) = 0"
    "geometry_radiusBottom (mesh q1) = geometry_radiusBottom (mesh ?P0)"
    "ageInYears q1 = clampProgress 0.6 * 10"
    "isHarvested q1 = (0.5 < clampProgress 0.6 \<and> 3 \<le> ageInYears ?P0)"
    "harvestedPoles ?T1 = harvestedPoles ?T0
       + (if 0.5 < clampProgress 0.6 \<and> 3 \<le> ageInYears ?P0 then 1 else 0)"
    using lone_update[of ?T0 ?P0 "0.6"] p0(1) by auto
  have h1: "harvestedPoles ?T1 = 0" "\<not> isHarvested q1" "ageInYears q1 = 6"
    "0 \<le> geometry_radiusBottom (mesh q1)"
    using q1(4-7) p0(2) by (simp_all add: clampProgress_def)
  obtain q2 where q2: "poles ?T2 = [q2]"
    "isHarvested q2 = (0.5 < clampProgress 0.6 \<and> 3 \<le> ageInYears q1)"
    "harvestedPoles ?T2 = harvestedPoles ?T1
       + (if 0.5 < clampProgress 0.6 \<and> 3 \<le> ageInYears q1 then 1 else 0)"
    using lone_update[OF q1(1) h1(2) q1(2,3) h1(4), of "0.6"] by auto
  have h2: "harvestedPoles ?T2 = 1" "isHarvested (poles ?T2 ! 0)" "0 < length (poles ?T2)"
    using q2 h1(1,3) by (simp_all add: clampProgress_def)
  note t1 = harvest_irreversible[OF r1, of "0.6" "sconst 0" "0.9"]
  note t2 = harvest_irreversible[OF r2, of "0.2" "sconst 0" "0.9"]
  have a: "harvestedPoles ?T1 \<le> harvestedPoles ?T2" using t1 by blast
  have b: "harvestedPoles ?T2 \<le> int (length (poles ?T2))" using t2 by blast
  have d: "harvestedPoles ?T2 \<le> harvestedPoles ?T3" using t2 by blast
  have e: "isHarvested (poles ?T3 ! 0)" using t2 h2(2,3) by blast
  have f: "isHarvested (poles (harvestMaturePoles 0.9 ?T2) ! 0)" using t2 h2(2,3) by blast
  show ?thesis using h1(1) h2(1,2) a b d e f by blast
qed

subsection \<open>C8: placement terminates within its budget\<close>

text \<open>
  Claim C8. The loops of \<open>addNewPoles\<close> are total functions: the call always returns.
  The attempts counter of a call never exceeds \<open>maxAttempts = 100\<close>, each attempt takes
  four draws and each new pole eleven more, so the draws of a call are bounded. A stalk
  for which the loop ends without a valid position is skipped, leaving the poles and the
  exclusion circles as they were, and once the budget of the call is used up every
  remaining stalk of the call is skipped: the clump then has fewer new poles than were
  asked for, and never more.
\<close>

theorem placement_bounded:
  "ps_attempts (placeAll count this rs) \<le> maxAttempts
   \<and> maxAttempts = 100
   \<and> snd (addNewPoles count this rs) =
       sdrop (4 * ps_attempts (placeAll count this rs)
              + 11 * (length (poles (fst (addNewPoles count this rs))) - length (poles this))) rs
   \<and> length (poles this) \<le> length (poles (fst (addNewPoles count this rs)))
   \<and> length (poles (fst (addNewPoles count this rs))) \<le> length (poles this) + nat count
   \<and> (\<not> validPosition (fst (placeWhile (ps_existing s) initialCandidate (ps_attempts s) (ps_rng s)))
        \<longrightarrow> ps_poles (placeOne s) = ps_poles s \<and> ps_existing (placeOne s) = ps_existing s)
   \<and> (maxAttempts \<le> ps_attempts s \<longrightarrow> placeFor n s = s)"
proof -
  let ?s0 = "\<lparr>ps_existing = initialExistingPositions (poles this), ps_poles = poles this,
              ps_attempts = 0, ps_rng = rs\<rparr>"
  have a: "ps_attempts (placeAll count this rs) \<le> maxAttempts"
    using placeFor_attempts[of ?s0 "nat count"] by (simp add: placeAll_def)
  have r: "snd (addNewPoles count this rs) =
       sdrop (4 * ps_attempts (placeAll count this rs)
              + 11 * (length (poles (fst (addNewPoles count this rs))) - length (poles this))) rs"
    using placeFor_rng[of "nat count" ?s0] by (simp add: addNewPoles_def placeAll_def Let_def)
  obtain ys where ys: "poles (fst (addNewPoles count this rs)) = poles this @ ys"
    "length ys \<le> nat count"
    using addNewPoles_poles[of count this rs] by blast
  have l: "length (poles this) \<le> length (poles (fst (addNewPoles count this rs)))"
    "length (poles (fst (addNewPoles count this rs))) \<le> length (poles this) + nat count"
    using ys by simp_all
  show ?thesis
    using a r l placeOne_skip[of s] placeFor_exhausted[of s n]
    by (simp add: maxAttempts_def)
qed

theorem placement_bounded_witness:
  "ps_poles (placeOne (placeOne \<lparr>ps_existing = [], ps_poles = [], ps_attempts = 0, ps_rng = sconst 0\<rparr>))
     = ps_poles (placeOne \<lparr>ps_existing = [], ps_poles = [], ps_attempts = 0, ps_rng = sconst 0\<rparr>)
   \<and> placeFor 3 (placeOne (placeOne \<lparr>ps_existing = [], ps_poles = [], ps_attempts = 0, ps_rng = sconst 0\<rparr>))
     = placeOne (placeOne \<lparr>ps_existing = [], ps_poles = [], ps_attempts = 0, ps_rng = sconst 0\<rparr>)
   \<and> length (poles (fst (addNewPoles 5 emptyClump (sconst 0)))) = 1"
proof -
  let ?s0 = "\<lparr>ps_existing = [], ps_poles = [], ps_attempts = 0, ps_rng = sconst 0\<rparr>"
  let ?s1 = "placeOne ?s0"
  let ?s2 = "placeOne ?s1"
  have s1: "?s1 = \<lparr>ps_existing = [\<lparr>ep_x = 0, ep_z = 0, ep_radius = 0.072\<rparr>],
      ps_poles = [fst (makePole 0 0 0.06 (sconst 0))], ps_attempts = 1, ps_rng = sconst 0\<rparr>"
    by (rule placeOne_zero_first)
  have blocked: "list_ex (tooClose 0 0 0.06) (ps_existing ?s1)"
    unfolding s1 by (simp add: tooClose_origin)
  have a: "snd (drawCandidate (ps_existing ?s1) (sconst 0)) = sconst 0"
    by (simp add: drawCandidate_zero)
  have b: "\<not> validPosition (fst (drawCandidate (ps_existing ?s1) (sconst 0)))"
    using blocked by (simp add: drawCandidate_zero)
  have c: "\<not> validPosition initialCandidate" by (simp add: initialCandidate_def)
  have rng1: "ps_rng ?s1 = sconst 0" unfolding s1 by simp
  have h1: "\<not> validPosition (fst (placeWhile (ps_existing ?s1) initialCandidate
                (ps_attempts ?s1) (ps_rng ?s1)))"
    unfolding rng1 using placeWhile_reject_const[OF a b c] by blast
  have s2: "?s2 = ?s1\<lparr>ps_attempts := max (ps_attempts ?s1) maxAttempts\<rparr>"
    by (rule placeOne_zero_blocked[OF blocked rng1])
  have h2: "maxAttempts \<le> ps_attempts ?s2" unfolding s2 by simp
  have w1: "ps_poles ?s2 = ps_poles ?s1"
    using placement_bounded[of 5 emptyClump "sconst 0" ?s1 3] h1 by blast
  have w2: "placeFor 3 ?s2 = ?s2"
    using placement_bounded[of 5 emptyClump "sconst 0" ?s2 3] h2 by blast
  have w3: "length (poles (fst (addNewPoles 5 emptyClump (sconst 0)))) = 1"
    using newBambooClump_zero by (simp add: newBambooClump_def)
  show ?thesis using w1 w2 w3 by blast
qed

lemma update_length:
  "length (poles (fst (snd (update p this rs)))) = length (poles (fst (update_grow p this rs)))"
  by (simp add: update_state update_poles_nth(1) update_harvest_poles(1))

lemma update_counters:
  "currentPoles (fst (snd (update p this rs))) = currentPoles (fst (update_grow p this rs))"
  "harvestedPoles (fst (snd (update p this rs))) =
     harvestedPoles (fst (update_harvest (fst (update_grow p this rs)) (snd (update_grow p this rs))))"
  by (simp_all add: update_state)

lemma update_grow_zero:
  "update_grow 0 (fst (newBambooClump (sconst 0))) (sconst 0) =
     (emptyClump\<lparr>poles := [fst (makePole 0 0 0.06 (sconst 0))], currentPoles := 6,
        growthProgress := 0, clumpTargetHeight := calculateHeight 0\<rparr>, sconst 0)"
proof -
  let ?T = "emptyClump\<lparr>poles := [fst (makePole 0 0 0.06 (sconst 0))], currentPoles := 5,
        growthProgress := 0, clumpTargetHeight := calculateHeight 0\<rparr>"
  have t: "calculatePoleCount ?T 0 = 6"
    by (rule calculatePoleCount_0) (simp add: emptyClump_def)
  have "placeFor (Suc 0) \<lparr>ps_existing = [\<lparr>ep_x = 0, ep_z = 0, ep_radius = 0.0792\<rparr>],
          ps_poles = [fst (makePole 0 0 0.06 (sconst 0))], ps_attempts = 0, ps_rng = sconst 0\<rparr>
      = \<lparr>ps_existing = [\<lparr>ep_x = 0, ep_z = 0, ep_radius = 0.0792\<rparr>],
          ps_poles = [fst (makePole 0 0 0.06 (sconst 0))], ps_attempts = 100, ps_rng = sconst 0\<rparr>"
    by (simp add: placeOne_zero_blocked tooClose_origin maxAttempts_def)
  then have "addNewPoles 1 ?T (sconst 0) = (?T\<lparr>currentPoles := 6\<rparr>, sconst 0)"
    by (simp add: addNewPoles_def placeAll_def initialExistingPositions_def
          existingPositionOf_def emptyClump_def)
  then show ?thesis
    using t by (simp add: update_grow_def newBambooClump_zero clampProgress_def emptyClump_def)
qed

subsection \<open>C10: \<open>currentPoles\<close> counts requests, not records\<close>

text \<open>
  Claim C10. \<open>addNewPoles\<close> raises \<open>currentPoles\<close> by the full count, whatever the number
  of poles it created, and \<open>update\<close> returns
  \<open>max 5 (currentPoles - harvestedPoles)\<close> as its pole count. On the stream of zeros the
  constructor creates one pole and sets \<open>currentPoles\<close> to 5, and the first \<open>update\<close> at
  progress 0 returns a pole count of 6 while the clump still has a single pole.
\<close>

theorem currentPoles_counts_requests:
  "currentPoles (fst (addNewPoles count this rs)) = currentPoles this + count
   \<and> poleCount (fst (update p this rs)) =
       max 5 (currentPoles (fst (snd (update p this rs))) - harvestedPoles (fst (snd (update p this rs))))
   \<and> length (poles (fst (newBambooClump (sconst 0)))) = 1
   \<and> currentPoles (fst (newBambooClump (sconst 0))) = 5
   \<and> poleCount (fst (update 0 (fst (newBambooClump (sconst 0))) (sconst 0))) = 6
   \<and> length (poles (fst (snd (update 0 (fst (newBambooClump (sconst 0))) (sconst 0))))) = 1"
proof -
  have a: "length (poles (fst (newBambooClump (sconst 0)))) = 1"
    by (simp add: newBambooClump_zero)
  have l: "length (poles (fst (snd (update 0 (fst (newBambooClump (sconst 0))) (sconst 0))))) = 1"
    by (simp add: update_length update_grow_zero)
  have h: "harvestedPoles (fst (snd (update 0 (fst (newBambooClump (sconst 0))) (sconst 0)))) = 0"
    by (simp add: update_counters update_grow_zero update_harvest_def Math_random_def
          emptyClump_def)
  have c: "currentPoles (fst (snd (update 0 (fst (newBambooClump (sconst 0))) (sconst 0)))) = 6"
    by (simp add: update_counters update_grow_zero)
  have pc: "poleCount (fst (update 0 (fst (newBambooClump (sconst 0))) (sconst 0))) = 6"
    unfolding update_poleCount h c by simp
  show ?thesis using a l pc by (simp add: update_poleCount)
qed

subsection \<open>C4: how far apart the live stalks are\<close>

lemma unitStream_shd: "unitStream rs \<Longrightarrow> 0 \<le> shd rs \<and> shd rs < 1"
  by (simp add: unitStream_def shd_sset)

lemma unitStream_stl: "unitStream rs \<Longrightarrow> unitStream (stl rs)"
  by (auto simp: unitStream_def dest: stl_sset)

lemma unitStream_sdrop: "unitStream rs \<Longrightarrow> unitStream (sdrop n rs)"
  by (induction n arbitrary: rs) (simp_all add: unitStream_stl)

lemma drawCandidate_candOK:
  assumes "unitStream rs"
  shows "candOK eps (fst (drawCandidate eps rs))"
proof -
  have "0 \<le> shd (stl (stl (stl rs)))"
    using assms unitStream_shd unitStream_stl by blast
  then have "0 < 0.06 + shd (stl (stl (stl rs))) * 0.04"
    and "0 < 0.12 + shd (stl (stl (stl rs))) * 0.06"
    by (simp_all add: add_pos_nonneg)
  then show ?thesis
    by (simp add: candOK_def drawCandidate_def Math_random_def Let_def)
qed

lemma placeWhile_candOK:
  "unitStream rs \<Longrightarrow> candOK eps c \<Longrightarrow> candOK eps (fst (placeWhile eps c k rs))"
proof (induction eps c k rs rule: placeWhile.induct)
  case (1 eps c k rs)
  show ?case
  proof (cases "\<not> validPosition c \<and> k < maxAttempts")
    case True
    have u: "unitStream (snd (drawCandidate eps rs))"
      using "1.prems"(1) by (simp add: drawCandidate_rng unitStream_sdrop)
    show ?thesis
      using "1.IH"[OF True u drawCandidate_candOK[OF "1.prems"(1)]] True
      by (simp add: placeWhile_step)
  next
    case False
    then have "placeWhile eps c k rs = (c, k, rs)" by (intro placeWhile_stop) auto
    then show ?thesis using "1.prems"(2) by simp
  qed
qed

lemma poleDistance_commute: "poleDistance a b = poleDistance b a"
proof -
  have "\<And>u v::real. (u - v) * (u - v) = (v - u) * (v - u)" by (simp add: algebra_simps)
  then show ?thesis by (simp add: poleDistance_def Let_def)
qed

lemma separated_snoc:
  assumes "separated c ps"
    and "\<And>p. p \<in> set ps \<Longrightarrow> \<not> isHarvested p \<Longrightarrow> \<not> isHarvested q \<Longrightarrow>
           (exclusionRadius p + exclusionRadius q) / c \<le> poleDistance p q"
  shows "separated c (ps @ [q])"
  unfolding separated_def
proof (intro allI impI)
  fix i j
  assume i: "i < length (ps @ [q])" and j: "j < length (ps @ [q])"
    and h: "i \<noteq> j \<and> \<not> isHarvested ((ps @ [q]) ! i) \<and> \<not> isHarvested ((ps @ [q]) ! j)"
  consider (old) "i < length ps" "j < length ps"
    | (inew) "i = length ps" "j < length ps"
    | (jnew) "i < length ps" "j = length ps"
    using i j h by (cases "i < length ps"; cases "j < length ps") auto
  then show "(exclusionRadius ((ps @ [q]) ! i) + exclusionRadius ((ps @ [q]) ! j)) / c
              \<le> poleDistance ((ps @ [q]) ! i) ((ps @ [q]) ! j)"
  proof cases
    case old
    then show ?thesis using assms(1) h by (simp add: separated_def nth_append)
  next
    case inew
    then have "(exclusionRadius (ps ! j) + exclusionRadius q) / c \<le> poleDistance (ps ! j) q"
      using assms(2)[of "ps ! j"] h by (simp add: nth_append)
    then show ?thesis using inew
      by (simp add: nth_append poleDistance_commute[of q] add.commute)
  next
    case jnew
    then have "(exclusionRadius (ps ! i) + exclusionRadius q) / c \<le> poleDistance (ps ! i) q"
      using assms(2)[of "ps ! i"] h by (simp add: nth_append)
    then show ?thesis using jnew by (simp add: nth_append)
  qed
qed

lemma separated_cong:
  assumes "separated c ps" and "length ps' = length ps"
    and "\<And>i. i < length ps \<Longrightarrow>
           position_x (mesh (ps' ! i)) = position_x (mesh (ps ! i))
         \<and> position_z (mesh (ps' ! i)) = position_z (mesh (ps ! i))
         \<and> geometry_radiusBottom (mesh (ps' ! i)) = geometry_radiusBottom (mesh (ps ! i))
         \<and> (isHarvested (ps ! i) \<longrightarrow> isHarvested (ps' ! i))"
  shows "separated c ps'"
  unfolding separated_def
proof (intro allI impI)
  fix i j
  assume i: "i < length ps'" and j: "j < length ps'"
    and h: "i \<noteq> j \<and> \<not> isHarvested (ps' ! i) \<and> \<not> isHarvested (ps' ! j)"
  have ii: "i < length ps" and jj: "j < length ps" using i j assms(2) by simp_all
  have live: "\<not> isHarvested (ps ! i)" "\<not> isHarvested (ps ! j)"
    using h assms(3)[OF ii] assms(3)[OF jj] by blast+
  have "(exclusionRadius (ps ! i) + exclusionRadius (ps ! j)) / c \<le> poleDistance (ps ! i) (ps ! j)"
    using assms(1) ii jj h live by (simp add: separated_def)
  then show "(exclusionRadius (ps' ! i) + exclusionRadius (ps' ! j)) / c
              \<le> poleDistance (ps' ! i) (ps' ! j)"
    using assms(3)[OF ii] assms(3)[OF jj]
    by (simp add: exclusionRadius_def existingPositionOf_def poleDistance_def Let_def)
qed


lemma makePole_radius_bounds:
  assumes "unitStream rs" and "0 < t"
  shows "0 \<le> geometry_radiusBottom (mesh (fst (makePole x z t rs)))"
    and "geometry_radiusBottom (mesh (fst (makePole x z t rs))) / 1.3 \<le> t"
proof -
  let ?r = "shd (stl (stl rs))"
  have r: "0 \<le> ?r" "?r < 1" using assms(1) unitStream_shd unitStream_stl by blast+
  have f: "0 \<le> 1.1 + ?r * 0.2" "1.1 + ?r * 0.2 \<le> 1.3" using r by simp_all
  show "0 \<le> geometry_radiusBottom (mesh (fst (makePole x z t rs)))"
    using assms(2) f(1) by simp
  have "t * (1.1 + ?r * 0.2) \<le> t * 1.3" using assms(2) f(2) by (intro mult_left_mono) simp_all
  then show "geometry_radiusBottom (mesh (fst (makePole x z t rs))) / 1.3 \<le> t" by simp
qed

lemma not_tooClose_distance:
  assumes "\<not> tooClose x z t e"
    and "ep_x e = position_x (mesh p)" and "ep_z e = position_z (mesh p)"
    and "position_x (mesh q) = x" and "position_z (mesh q) = z"
  shows "t + ep_radius e \<le> poleDistance q p"
  using assms by (simp add: tooClose_def poleDistance_def Let_def not_less)

lemma exclusion_sum:
  "(exclusionRadius p + exclusionRadius q) / 1.56 =
     geometry_radiusBottom (mesh p) / 1.3 + geometry_radiusBottom (mesh q) / 1.3"
  by (simp add: exclusionRadius_def existingPositionOf_def field_simps)

lemma placeOne_inv:
  assumes "placeInv s"
  shows "placeInv (placeOne s)"
proof -
  let ?w = "placeWhile (ps_existing s) initialCandidate (ps_attempts s) (ps_rng s)"
  let ?c = "fst ?w"
  let ?rs1 = "snd (snd ?w)"
  have sep: "separated 1.56 (ps_poles s)" and rad: "radiiOK (ps_poles s)"
    and cov: "covers (ps_existing s) (ps_poles s)" and u: "unitStream (ps_rng s)"
    using assms by (simp_all add: placeInv_def)
  have u1: "unitStream ?rs1"
    by (simp add: placeWhile_rng unitStream_sdrop u)
  show ?thesis
  proof (cases "validPosition ?c")
    case False
    then have "placeOne s = s\<lparr>ps_attempts := fst (snd ?w), ps_rng := ?rs1\<rparr>"
      by (simp add: placeOne_def Let_def split_beta)
    then show ?thesis using sep rad cov u1 by (simp add: placeInv_def)
  next
    case True
    let ?q = "fst (makePole (cand_x ?c) (cand_z ?c) (cand_thickness ?c) ?rs1)"
    let ?e = "\<lparr>ep_x = cand_x ?c, ep_z = cand_z ?c, ep_radius = cand_thickness ?c * 1.2\<rparr>"
    have ok: "candOK (ps_existing s) ?c"
      by (rule placeWhile_candOK[OF u]) (simp add: candOK_def initialCandidate_def)
    then have free: "\<not> list_ex (tooClose (cand_x ?c) (cand_z ?c) (cand_thickness ?c)) (ps_existing s)"
      and pos: "0 < cand_thickness ?c"
      using True by (simp_all add: candOK_def)
    have rb: "0 \<le> geometry_radiusBottom (mesh ?q)"
      "geometry_radiusBottom (mesh ?q) / 1.3 \<le> cand_thickness ?c"
      using makePole_radius_bounds[OF u1 pos] by blast+
    have eq: "placeOne s =
        \<lparr>ps_existing = ps_existing s @ [?e], ps_poles = ps_poles s @ [?q],
         ps_attempts = fst (snd ?w),
         ps_rng = snd (makePole (cand_x ?c) (cand_z ?c) (cand_thickness ?c) ?rs1)\<rparr>"
      using True by (simp add: placeOne_def Let_def split_beta)
    have sep': "separated 1.56 (ps_poles s @ [?q])"
    proof (rule separated_snoc[OF sep])
      fix p
      assume p: "p \<in> set (ps_poles s)" and lp: "\<not> isHarvested p"
      obtain e where e: "e \<in> set (ps_existing s)" "ep_x e = position_x (mesh p)"
        "ep_z e = position_z (mesh p)" "geometry_radiusBottom (mesh p) / 1.3 \<le> ep_radius e"
        using cov p lp unfolding covers_def by blast
      have "\<not> tooClose (cand_x ?c) (cand_z ?c) (cand_thickness ?c) e"
        using free e(1) by (auto simp: list_ex_iff)
      then have "cand_thickness ?c + ep_radius e \<le> poleDistance ?q p"
        by (rule not_tooClose_distance) (simp_all add: e(2,3))
      then have "geometry_radiusBottom (mesh p) / 1.3 + geometry_radiusBottom (mesh ?q) / 1.3
                   \<le> poleDistance p ?q"
        using e(4) rb(2) by (simp add: poleDistance_commute[of p])
      then show "(exclusionRadius p + exclusionRadius ?q) / 1.56 \<le> poleDistance p ?q"
        by (simp only: exclusion_sum)
    qed
    have rad': "radiiOK (ps_poles s @ [?q])" using rad rb(1) by (simp add: radiiOK_def)
    have "geometry_radiusBottom (mesh ?q) / 1.3 \<le> cand_thickness ?c * 1.2"
      using rb(2) pos by simp
    then have cov': "covers (ps_existing s @ [?e]) (ps_poles s @ [?q])"
      using cov unfolding covers_def by (auto simp del: makePole_fields(5)) 
    have u': "unitStream (snd (makePole (cand_x ?c) (cand_z ?c) (cand_thickness ?c) ?rs1))"
      by (simp add: makePole_rng unitStream_sdrop u1)
    show ?thesis unfolding eq using sep' rad' cov' u' by (simp add: placeInv_def)
  qed
qed

lemma placeFor_inv: "placeInv s \<Longrightarrow> placeInv (placeFor n s)"
  by (induction n arbitrary: s) (simp_all add: placeOne_inv)

lemma covers_initial: "radiiOK ps \<Longrightarrow> covers (initialExistingPositions ps) ps"
  unfolding covers_def radiiOK_def initialExistingPositions_def
proof (intro ballI impI)
  fix q
  assume r: "\<forall>q\<in>set ps. 0 \<le> geometry_radiusBottom (mesh q)" and q: "q \<in> set ps"
    and l: "\<not> isHarvested q"
  have "0 \<le> geometry_radiusBottom (mesh q)" using r q by blast
  then have "geometry_radiusBottom (mesh q) / 1.3 \<le> geometry_radiusBottom (mesh q) * 1.2"
    by simp
  moreover have "existingPositionOf q \<in> set (map existingPositionOf (filter (\<lambda>pole. \<not> isHarvested pole) ps))"
    using q l by simp
  ultimately show "\<exists>e\<in>set (map existingPositionOf (filter (\<lambda>pole. \<not> isHarvested pole) ps)).
       ep_x e = position_x (mesh q) \<and> ep_z e = position_z (mesh q)
       \<and> geometry_radiusBottom (mesh q) / 1.3 \<le> ep_radius e"
    by (intro bexI[of _ "existingPositionOf q"]) (simp_all add: existingPositionOf_def)
qed

lemma addNewPoles_good:
  assumes "goodPoles (poles this)" and "unitStream rs"
  shows "goodPoles (poles (fst (addNewPoles n this rs)))"
proof -
  let ?s0 = "\<lparr>ps_existing = initialExistingPositions (poles this), ps_poles = poles this,
              ps_attempts = 0, ps_rng = rs\<rparr>"
  have "placeInv ?s0"
    using assms by (simp add: placeInv_def goodPoles_def covers_initial)
  then have "placeInv (placeFor (nat n) ?s0)" by (rule placeFor_inv)
  then show ?thesis
    by (simp add: addNewPoles_def placeAll_def Let_def placeInv_def goodPoles_def)
qed


lemma goodPoles_cong:
  assumes "goodPoles ps" and "length ps' = length ps"
    and "\<And>i. i < length ps \<Longrightarrow>
           position_x (mesh (ps' ! i)) = position_x (mesh (ps ! i))
         \<and> position_z (mesh (ps' ! i)) = position_z (mesh (ps ! i))
         \<and> geometry_radiusBottom (mesh (ps' ! i)) = geometry_radiusBottom (mesh (ps ! i))
         \<and> (isHarvested (ps ! i) \<longrightarrow> isHarvested (ps' ! i))"
  shows "goodPoles ps'"
proof -
  have "separated 1.56 ps'"
    by (rule separated_cong[OF _ assms(2,3)]) (use assms(1) in \<open>simp_all add: goodPoles_def\<close>)
  moreover have "radiiOK ps'"
    unfolding radiiOK_def
  proof
    fix q assume "q \<in> set ps'"
    then obtain i where i: "i < length ps'" "q = ps' ! i" by (auto simp: in_set_conv_nth)
    then have "0 \<le> geometry_radiusBottom (mesh (ps ! i))"
      using assms(1,2) by (simp add: goodPoles_def radiiOK_def)
    then show "0 \<le> geometry_radiusBottom (mesh q)" using i assms(2,3) by simp
  qed
  ultimately show ?thesis by (simp add: goodPoles_def)
qed

lemma harvest_good:
  assumes "goodPoles (poles this)"
  shows "goodPoles (poles (harvestMaturePoles gp this))"
proof (cases "gp < 0.3")
  case True
  then show ?thesis using assms by (simp add: harvestMaturePoles_early)
next
  case False
  show ?thesis
    by (rule goodPoles_cong[OF assms]) (simp_all add: harvestMaturePoles_poles[OF False])
qed

lemma update_grow_good:
  assumes "goodPoles (poles this)" and "unitStream rs"
  shows "goodPoles (poles (fst (update_grow p this rs)))"
  using assms addNewPoles_good[of "this\<lparr>growthProgress := clampProgress p,
          clumpTargetHeight := calculateHeight (clampProgress p)\<rparr>" rs]
  by (simp add: update_grow_def Let_def)

lemma update_harvest_good:
  "goodPoles (poles this) \<Longrightarrow> goodPoles (poles (fst (update_harvest this rs)))"
  by (simp add: update_harvest_def split_beta harvest_good)

lemma update_poles_good:
  assumes "goodPoles (poles this)"
  shows "goodPoles (poles (fst (update_poles this rs)))"
  by (rule goodPoles_cong[OF assms]) (simp_all add: update_poles_poles updatePoles_nth)

lemma update_good:
  "goodPoles (poles this) \<Longrightarrow> unitStream rs \<Longrightarrow> goodPoles (poles (fst (snd (update p this rs))))"
  by (simp add: update_state update_grow_good update_harvest_good update_poles_good)

lemma new_good: "unitStream rs \<Longrightarrow> goodPoles (poles (fst (newBambooClump rs)))"
  unfolding newBambooClump_def
  by (rule addNewPoles_good) (simp_all add: goodPoles_def separated_def radiiOK_def emptyClump_def)

lemma reachable_good: "reachable this \<Longrightarrow> goodPoles (poles this)"
  by (induction rule: reachable.induct) (simp_all add: new_good update_good harvest_good)

text \<open>
  What the overlap test keeps in the schematic engine. In every state that a simulation
  reaches, any two distinct poles that are not harvested are at least as far apart as
  the sum of their exclusion radii divided by 1.56, which is the sum of their bottom
  radii divided by 1.3. This is less than the sum of the bottom radii, so poles that
  meet it can still interpenetrate.
\<close>

lemma placement_keeps_distance:
  assumes "reachable this"
    and "i < length (poles this)" and "j < length (poles this)" and "i \<noteq> j"
    and "\<not> isHarvested (poles this ! i)" and "\<not> isHarvested (poles this ! j)"
  shows "(exclusionRadius (poles this ! i) + exclusionRadius (poles this ! j)) / 1.56
           \<le> poleDistance (poles this ! i) (poles this ! j)
       \<and> (geometry_radiusBottom (mesh (poles this ! i))
            + geometry_radiusBottom (mesh (poles this ! j))) / 1.3
           \<le> poleDistance (poles this ! i) (poles this ! j)"
proof -
  have "separated 1.56 (poles this)"
    using reachable_good[OF assms(1)] by (simp add: goodPoles_def)
  then have a: "(exclusionRadius (poles this ! i) + exclusionRadius (poles this ! j)) / 1.56
           \<le> poleDistance (poles this ! i) (poles this ! j)"
    using assms(2-6) by (simp add: separated_def)
  have "(geometry_radiusBottom (mesh (poles this ! i))
            + geometry_radiusBottom (mesh (poles this ! j))) / 1.3
        = (exclusionRadius (poles this ! i) + exclusionRadius (poles this ! j)) / 1.56"
    by (simp add: exclusionRadius_def existingPositionOf_def field_simps)
  then show ?thesis using a by simp
qed


lemma placeFor_prefix:
  "i < length (ps_poles s) \<Longrightarrow> ps_poles (placeFor n s) ! i = ps_poles s ! i"
  using placeFor_poles[of n s] by (auto simp: nth_append)

lemma unitStream_twoPole: "unitStream twoPoleStream"
  by (simp add: unitStream_def twoPoleStream_def)

lemma twoPole_first:
  "placeOne \<lparr>ps_existing = [], ps_poles = [], ps_attempts = 0, ps_rng = twoPoleStream\<rparr> =
     \<lparr>ps_existing = [\<lparr>ep_x = 4/5, ep_z = 0, ep_radius = 18/125\<rparr>],
      ps_poles = [fst (makePole (4/5) 0 (3/25) (sdrop 4 twoPoleStream))],
      ps_attempts = 1, ps_rng = sdrop 15 twoPoleStream\<rparr>"
proof -
  have d: "drawCandidate [] twoPoleStream =
      (\<lparr>validPosition = True, cand_x = 4/5, cand_z = 0, cand_thickness = 3/25\<rparr>,
       sdrop 4 twoPoleStream)"
    by (simp add: drawCandidate_def Math_random_def Let_def twoPoleStream_def eval_nat_numeral)
  have w: "placeWhile [] initialCandidate 0 twoPoleStream =
      (\<lparr>validPosition = True, cand_x = 4/5, cand_z = 0, cand_thickness = 3/25\<rparr>, 1,
       sdrop 4 twoPoleStream)"
    using placeWhile_accept_first[of "[]" twoPoleStream initialCandidate 0]
    by (simp add: d initialCandidate_def maxAttempts_def)
  show ?thesis by (simp add: placeOne_def w split_beta makePole_rng)
qed


lemma tooClose_on_axis:
  "tooClose x 0 t \<lparr>ep_x = a, ep_z = 0, ep_radius = r\<rparr> = (\<bar>x - a\<bar> < t + r)"
  by (simp add: tooClose_def)

lemma poleDistance_on_axis:
  "position_z (mesh p) = 0 \<Longrightarrow> position_z (mesh q) = 0 \<Longrightarrow>
     poleDistance p q = \<bar>position_x (mesh p) - position_x (mesh q)\<bar>"
  by (simp add: poleDistance_def)

lemma twoPole_second:
  "placeOne (placeOne \<lparr>ps_existing = [], ps_poles = [], ps_attempts = 0, ps_rng = twoPoleStream\<rparr>) =
     \<lparr>ps_existing = [\<lparr>ep_x = 4/5, ep_z = 0, ep_radius = 18/125\<rparr>,
                     \<lparr>ep_x = 107/100, ep_z = 0, ep_radius = 18/125\<rparr>],
      ps_poles = [fst (makePole (4/5) 0 (3/25) (sdrop 4 twoPoleStream)),
                  fst (makePole (107/100) 0 (3/25) (sdrop 19 twoPoleStream))],
      ps_attempts = 2, ps_rng = sdrop 30 twoPoleStream\<rparr>"
proof -
  let ?e = "\<lparr>ep_x = 4/5, ep_z = 0, ep_radius = 18/125\<rparr>"
  have free: "\<not> tooClose (107/100) 0 (3/25) ?e"
    unfolding tooClose_on_axis by simp
  have d: "drawCandidate [?e] (sdrop 15 twoPoleStream) =
      (\<lparr>validPosition = True, cand_x = 107/100, cand_z = 0, cand_thickness = 3/25\<rparr>,
       sdrop 19 twoPoleStream)"
    using free
    by (simp add: drawCandidate_def Math_random_def Let_def twoPoleStream_def eval_nat_numeral)
  have w: "placeWhile [?e] initialCandidate (Suc 0) (sdrop 15 twoPoleStream) =
      (\<lparr>validPosition = True, cand_x = 107/100, cand_z = 0, cand_thickness = 3/25\<rparr>, 2,
       sdrop 19 twoPoleStream)"
    using placeWhile_accept_first[of "[?e]" "sdrop 15 twoPoleStream" initialCandidate "Suc 0"]
    by (simp add: d initialCandidate_def maxAttempts_def)
  show ?thesis
    unfolding twoPole_first
    by (simp add: placeOne_def w split_beta makePole_rng)
qed

lemma twoPole_poles:
  "poles (fst (newBambooClump twoPoleStream)) ! 0 = fst (makePole (4/5) 0 (3/25) (sdrop 4 twoPoleStream))"
  "poles (fst (newBambooClump twoPoleStream)) ! 1 = fst (makePole (107/100) 0 (3/25) (sdrop 19 twoPoleStream))"
  "2 \<le> length (poles (fst (newBambooClump twoPoleStream)))"
proof -
  let ?s0 = "\<lparr>ps_existing = [], ps_poles = [], ps_attempts = 0, ps_rng = twoPoleStream\<rparr>"
  let ?s2 = "placeOne (placeOne ?s0)"
  have p: "poles (fst (newBambooClump twoPoleStream)) = ps_poles (placeFor 3 ?s2)"
    by (simp add: newBambooClump_def addNewPoles_def placeAll_def emptyClump_def
          initialExistingPositions_def placeFor_numeral Let_def)
  have l: "length (ps_poles ?s2) = 2" unfolding twoPole_second by simp
  show "poles (fst (newBambooClump twoPoleStream)) ! 0 = fst (makePole (4/5) 0 (3/25) (sdrop 4 twoPoleStream))"
    unfolding p using placeFor_prefix[of 0 ?s2 3] l by (simp add: twoPole_second)
  show "poles (fst (newBambooClump twoPoleStream)) ! 1 = fst (makePole (107/100) 0 (3/25) (sdrop 19 twoPoleStream))"
    unfolding p using placeFor_prefix[of 1 ?s2 3] l by (simp add: twoPole_second)
  show "2 \<le> length (poles (fst (newBambooClump twoPoleStream)))"
    unfolding p using placeFor_mono[of ?s2 3] l by simp
qed

lemma twoPole_radii:
  "geometry_radiusBottom (mesh (fst (makePole (4/5) 0 (3/25) (sdrop 4 twoPoleStream)))) = 96/625"
  "geometry_radiusBottom (mesh (fst (makePole (107/100) 0 (3/25) (sdrop 19 twoPoleStream)))) = 96/625"
  by (simp_all add: twoPoleStream_def eval_nat_numeral)

subsection \<open>Bounds on \<open>pi\<close> and on the sine\<close>

text \<open>
  The seeded generator takes the fractional part of 10000 times the sine of a large
  argument. To evaluate it at a given seed, \<open>pi\<close> is enclosed to fourteen decimals by
  Machin's formula and the alternating series of the arc tangent, the argument is reduced
  by a multiple of \<open>pi\<close>, and the sine of the remainder is enclosed by its Taylor
  polynomial of degree 11.
\<close>

lemma arctan_partial_sums:
  fixes x :: real
  assumes "0 \<le> x" and "x \<le> 1"
  shows "(\<Sum>i<2 * n. (- 1) ^ i * (1 / real (i * 2 + 1) * x ^ (i * 2 + 1))) \<le> arctan x"
    and "arctan x \<le> (\<Sum>i<2 * n + 1. (- 1) ^ i * (1 / real (i * 2 + 1) * x ^ (i * 2 + 1)))"
proof -
  let ?a = "\<lambda>i. 1 / real (i * 2 + 1) * x ^ (i * 2 + 1)"
  have z: "?a \<longlonglongrightarrow> 0" by (rule zeroseq_arctan_series) (use assms in simp)
  have p: "\<And>i. 0 \<le> ?a i" using assms(1) by simp
  have d: "\<And>i. ?a (Suc i) \<le> ?a i"
  proof -
    fix i
    have "x ^ (Suc i * 2 + 1) \<le> x ^ (i * 2 + 1)"
      using assms by (intro power_decreasing) simp_all
    moreover have "1 / real (Suc i * 2 + 1) \<le> 1 / real (i * 2 + 1)"
      by (intro divide_left_mono) simp_all
    ultimately show "?a (Suc i) \<le> ?a i"
      using assms(1) by (intro mult_mono) simp_all
  qed
  have s: "arctan x = (\<Sum>i. (- 1) ^ i * ?a i)"
    by (rule arctan_series) (use assms in simp)
  show "(\<Sum>i<2 * n. (- 1) ^ i * ?a i) \<le> arctan x"
    unfolding s by (rule summable_Leibniz'(2)[OF z p d])
  show "arctan x \<le> (\<Sum>i<2 * n + 1. (- 1) ^ i * ?a i)"
    unfolding s by (rule summable_Leibniz'(4)[OF z p d])
qed

lemma pi_bounds: "314159265358979 / 10 ^ 14 < pi" "pi < 314159265358980 / 10 ^ 14"
proof -
  have m: "pi = 16 * arctan (1 / 5) - 4 * arctan (1 / 239)" using machin by simp
  have l5: "(\<Sum>i<2 * 5. (- 1) ^ i * (1 / real (i * 2 + 1) * (1 / 5) ^ (i * 2 + 1))) \<le> arctan (1 / 5 :: real)"
    by (rule arctan_partial_sums) simp_all
  have u5: "arctan (1 / 5 :: real) \<le> (\<Sum>i<2 * 5 + 1. (- 1) ^ i * (1 / real (i * 2 + 1) * (1 / 5) ^ (i * 2 + 1)))"
    by (rule arctan_partial_sums) simp_all
  have l239: "(\<Sum>i<2 * 2. (- 1) ^ i * (1 / real (i * 2 + 1) * (1 / 239) ^ (i * 2 + 1))) \<le> arctan (1 / 239 :: real)"
    by (rule arctan_partial_sums) simp_all
  have u239: "arctan (1 / 239 :: real) \<le> (\<Sum>i<2 * 2 + 1. (- 1) ^ i * (1 / real (i * 2 + 1) * (1 / 239) ^ (i * 2 + 1)))"
    by (rule arctan_partial_sums) simp_all
  show "314159265358979 / 10 ^ 14 < pi"
    unfolding m using l5 u239 by (simp add: eval_nat_numeral)
  show "pi < 314159265358980 / 10 ^ 14"
    unfolding m using u5 l239 by (simp add: eval_nat_numeral)
qed


lemma sin_lipschitz: "\<bar>sin x - sin y\<bar> \<le> \<bar>x - y\<bar>" for x y :: real
proof -
  have "\<bar>sin x - sin y\<bar> = 2 * \<bar>sin ((x - y) / 2)\<bar> * \<bar>cos ((x + y) / 2)\<bar>"
    by (simp add: sin_diff_sin abs_mult)
  also have "\<dots> \<le> 2 * \<bar>(x - y) / 2\<bar> * 1"
    by (intro mult_mono mult_left_mono abs_sin_x_le_abs_x) simp_all
  finally show ?thesis by simp
qed

lemma sin_shift: "sin x = (- 1) ^ m * sin (x - real m * pi)" for x :: real
proof -
  have "sin x = sin ((x - real m * pi) + real m * pi)" by simp
  also have "\<dots> = (- 1) ^ m * sin (x - real m * pi)"
    unfolding sin_add by simp
  finally show ?thesis .
qed

lemma sin_coeff_values:
  "sin_coeff 0 = 0" "sin_coeff (Suc 0) = 1" "sin_coeff 2 = 0" "sin_coeff 3 = - 1 / 6"
  "sin_coeff 4 = 0" "sin_coeff 5 = 1 / 120" "sin_coeff 6 = 0" "sin_coeff 7 = - 1 / 5040"
  "sin_coeff 8 = 0" "sin_coeff 9 = 1 / 362880" "sin_coeff 10 = 0"
  "sin_coeff 11 = - 1 / 39916800" "sin_coeff 12 = 0"
  by (simp_all add: sin_coeff_def fact_numeral)

lemma sin_taylor13:
  fixes q :: real
  shows "\<bar>sin q - (q - q ^ 3 / 6 + q ^ 5 / 120 - q ^ 7 / 5040 + q ^ 9 / 362880
            - q ^ 11 / 39916800)\<bar> \<le> \<bar>q\<bar> ^ 13 / 6227020800"
proof -
  have s: "(\<Sum>m<13. sin_coeff m * q ^ m) =
      q - q ^ 3 / 6 + q ^ 5 / 120 - q ^ 7 / 5040 + q ^ 9 / 362880 - q ^ 11 / 39916800"
    by (simp add: lessThan_nat_numeral lessThan_Suc sin_coeff_values)
  have f13: "fact 13 = (6227020800::real)" by (simp add: fact_numeral)
  have f: "inverse (fact 13) * \<bar>q\<bar> ^ 13 = \<bar>q\<bar> ^ 13 / 6227020800"
    unfolding f13 by (simp add: field_simps)
  show ?thesis using Maclaurin_sin_bound[of q 13] unfolding s f .
qed


lemma sin_window:
  fixes lo hi r :: real
  assumes "- (157 / 100) \<le> lo" and "lo \<le> r" and "r \<le> hi" and "hi \<le> 157 / 100"
  shows "lo - lo ^ 3 / 6 + lo ^ 5 / 120 - lo ^ 7 / 5040 + lo ^ 9 / 362880 - lo ^ 11 / 39916800
           - \<bar>lo\<bar> ^ 13 / 6227020800 \<le> sin r"
    and "sin r \<le> hi - hi ^ 3 / 6 + hi ^ 5 / 120 - hi ^ 7 / 5040 + hi ^ 9 / 362880
           - hi ^ 11 / 39916800 + \<bar>hi\<bar> ^ 13 / 6227020800"
proof -
  have p: "157 / 100 \<le> pi / 2" using pi_bounds(1) by simp
  have "sin lo \<le> sin r"
    by (rule sin_monotone_2pi_le) (use assms p in linarith)+
  then show "lo - lo ^ 3 / 6 + lo ^ 5 / 120 - lo ^ 7 / 5040 + lo ^ 9 / 362880 - lo ^ 11 / 39916800
           - \<bar>lo\<bar> ^ 13 / 6227020800 \<le> sin r"
    using sin_taylor13[of lo] by linarith
  have "sin r \<le> sin hi"
    by (rule sin_monotone_2pi_le) (use assms p in linarith)+
  then show "sin r \<le> hi - hi ^ 3 / 6 + hi ^ 5 / 120 - hi ^ 7 / 5040 + hi ^ 9 / 362880
           - hi ^ 11 / 39916800 + \<bar>hi\<bar> ^ 13 / 6227020800"
    using sin_taylor13[of hi] by linarith
qed

lemma seededRandom_range: "0 \<le> seededRandom s" "seededRandom s < 1"
  by (simp_all add: seededRandom_def Let_def) linarith

lemma seededRandom_below:
  assumes "real_of_int N \<le> sin (s * 9999) * 10000"
    and "sin (s * 9999) * 10000 < real_of_int N + c" and "c \<le> 1"
  shows "seededRandom s < c"
proof -
  have "\<lfloor>sin (s * 9999) * 10000\<rfloor> = N"
    by (rule floor_unique) (use assms in linarith)+
  then show ?thesis using assms(2) by (simp add: seededRandom_def Let_def)
qed

lemma seededRandom_135: "seededRandom 135 < 3 / 10"
proof -
  let ?r = "1349865 - 429675 * pi"
  have s: "sin 1349865 = - sin ?r"
    using sin_shift[of 1349865 429675] by simp
  have lo: "11765688 / 10000000 \<le> ?r" and hi: "?r \<le> 11765689 / 10000000"
    using pi_bounds by simp_all
  have a: "92329 / 100000 \<le> sin ?r"
    by (rule order_trans[OF _ sin_window(1)[OF _ lo hi]]) (simp_all add: power_divide)
  have b: "sin ?r \<le> 92330 / 100000"
    by (rule order_trans[OF sin_window(2)[OF _ lo hi]]) (simp_all add: power_divide)
  have "seededRandom 135 < 1 / 5"
    by (rule seededRandom_below[of "- 9233"]) (use a b in \<open>simp_all add: s\<close>)
  then show ?thesis by simp
qed

lemma seededRandom_136: "seededRandom 136 < 3 / 25"
proof -
  let ?r = "1359864 - 432858 * pi"
  have s: "sin 1359864 = sin ?r"
    using sin_shift[of 1359864 432858] by simp
  have lo: "4871524 / 10000000 \<le> ?r" and hi: "?r \<le> 4871525 / 10000000"
    using pi_bounds by simp_all
  have a: "46811 / 100000 \<le> sin ?r"
    by (rule order_trans[OF _ sin_window(1)[OF _ lo hi]]) (simp_all add: power_divide)
  have b: "sin ?r \<le> 4681116 / 10000000"
    by (rule order_trans[OF sin_window(2)[OF _ lo hi]]) (simp_all add: power_divide)
  show ?thesis
    by (rule seededRandom_below[of "4681"]) (use a b in \<open>simp_all add: s\<close>)
qed

lemma seededRandom_195: "seededRandom 195 < 3 / 10"
proof -
  let ?r = "1949805 - 620642 * pi"
  have s: "sin 1949805 = sin ?r"
    using sin_shift[of 1949805 620642] by simp
  have lo: "6522907 / 10000000 \<le> ?r" and hi: "?r \<le> 6522908 / 10000000"
    using pi_bounds by simp_all
  have a: "60700 / 100000 \<le> sin ?r"
    by (rule order_trans[OF _ sin_window(1)[OF _ lo hi]]) (simp_all add: power_divide)
  have b: "sin ?r \<le> 60701 / 100000"
    by (rule order_trans[OF sin_window(2)[OF _ lo hi]]) (simp_all add: power_divide)
  have "seededRandom 195 < 1 / 5"
    by (rule seededRandom_below[of "6070"]) (use a b in \<open>simp_all add: s\<close>)
  then show ?thesis by simp
qed

lemma seededRandom_196: "seededRandom 196 < 9 / 50"
proof -
  let ?r = "1959804 - 623825 * pi"
  have s: "sin 1959804 = - sin ?r"
    using sin_shift[of 1959804 623825] by simp
  have lo: "- (371257 / 10000000) \<le> ?r" and hi: "?r \<le> - (371256 / 10000000)"
    using pi_bounds by simp_all
  have a: "- (371172 / 10000000) \<le> sin ?r"
    by (rule order_trans[OF _ sin_window(1)[OF _ lo hi]]) (simp_all add: power_divide)
  have b: "sin ?r \<le> - (37117 / 1000000)"
    by (rule order_trans[OF sin_window(2)[OF _ lo hi]]) (simp_all add: power_divide)
  show ?thesis
    by (rule seededRandom_below[of "371"]) (use a b in \<open>simp_all add: s\<close>)
qed

subsection \<open>C4: two poles of one clump in the geo-referenced renderer\<close>

lemma geoPole_centre:
  assumes "seededRandom (cs + real k * 10) < 3 / 10"
  shows "isPoleCylinder (geoPole p cs clat clng k)"
    and "entityLat (geoPole p cs clat clng k) =
           clat + sin (seededRandom (cs + real k * 10 + 2) * pi * 2)
                    * (seededRandom (cs + real k * 10 + 1) * (2 / 5)) / 111320"
    and "entityLng (geoPole p cs clat clng k) =
           clng + cos (seededRandom (cs + real k * 10 + 2) * pi * 2)
                    * (seededRandom (cs + real k * 10 + 1) * (2 / 5))
                    / (111320 * cos (clat * pi / 180))"
    and "entityBottomRadius (geoPole p cs clat clng k) =
           3 / 50 + seededRandom (cs + real k * 10 + 4) * (2 / 25) + p * (3 / 50)"
  using assms
  by (simp_all add: geoPole_def Let_def isPoleCylinder_def entityLat_def entityLng_def
        entityBottomRadius_def)

lemma polar_distance:
  fixes r1 r2 a b :: real
  assumes "0 \<le> r1" and "0 \<le> r2"
  shows "sqrt ((cos a * r1 - cos b * r2) * (cos a * r1 - cos b * r2)
             + (sin a * r1 - sin b * r2) * (sin a * r1 - sin b * r2)) \<le> r1 + r2"
proof (rule real_le_lsqrt)
  show "0 \<le> r1 + r2" using assms by simp
  have ring: "\<And>ca cb sa sb :: real.
      (ca * r1 - cb * r2) * (ca * r1 - cb * r2) + (sa * r1 - sb * r2) * (sa * r1 - sb * r2)
        = r1 * r1 * (sa * sa + ca * ca) + r2 * r2 * (sb * sb + cb * cb)
            - 2 * (r1 * r2) * (ca * cb + sa * sb)"
    by (simp add: algebra_simps)
  have one: "\<And>x :: real. sin x * sin x + cos x * cos x = 1"
    using sin_cos_squared_add by (simp add: power2_eq_square)
  have e: "(cos a * r1 - cos b * r2) * (cos a * r1 - cos b * r2)
             + (sin a * r1 - sin b * r2) * (sin a * r1 - sin b * r2)
        = r1 * r1 + r2 * r2 - 2 * (r1 * r2) * cos (a - b)"
    unfolding ring one cos_diff by simp
  have "- 1 \<le> cos (a - b)" by simp
  then have "(r1 * r2) * (- 1) \<le> (r1 * r2) * cos (a - b)"
    using assms by (intro mult_left_mono) simp_all
  then show "(cos a * r1 - cos b * r2) * (cos a * r1 - cos b * r2)
             + (sin a * r1 - sin b * r2) * (sin a * r1 - sin b * r2) \<le> (r1 + r2)\<^sup>2"
    unfolding e by (simp add: power2_eq_square algebra_simps)
qed

lemma geoDistance_offsets:
  assumes "cos (entityLat mound * pi / 180) \<noteq> 0"
    and "entityLat a = entityLat mound + za / 111320"
    and "entityLat b = entityLat mound + zb / 111320"
    and "entityLng a = entityLng mound + xa / (111320 * cos (entityLat mound * pi / 180))"
    and "entityLng b = entityLng mound + xb / (111320 * cos (entityLat mound * pi / 180))"
  shows "geoDistance mound a b = sqrt ((xa - xb) * (xa - xb) + (za - zb) * (za - zb))"
proof -
  have x: "(entityLng a - entityLng b) * (111320 * cos (entityLat mound * pi / 180)) = xa - xb"
    using assms(1) unfolding assms(4,5) by (simp add: field_simps)
  have z: "(entityLat a - entityLat b) * 111320 = za - zb"
    unfolding assms(2,3) by (simp add: field_simps)
  show ?thesis unfolding geoDistance_def Let_def x z ..
qed

lemma overlapPlot_entities:
  "addBambooPlants overlapPlot 2035 = concat (map (geoClump overlapPlot 1 12) [0..<144])"
proof -
  have s1: "sqrt (10000::real) = 100" by (rule real_sqrt_unique) simp_all
  have s2: "sqrt (144::real) = 12" by (rule real_sqrt_unique) simp_all
  show ?thesis
    by (simp add: addBambooPlants_def overlapPlot_def geoProgress_def Let_def Math_round_def
          s1 s2)
qed

lemma poleCountPerClump_1: "poleCountPerClump 1 = 49"
  using logistic_floor_1[of 45] by (simp add: poleCountPerClump_def Let_def)

lemma overlapPlot_clump:
  "\<exists>clat clng. 0 < cos (clat * pi / 180) \<and>
     geoClump overlapPlot 1 12 0 =
       ClumpMound clng clat # map (geoPole 1 125 clat clng) [0..<12]"
proof -
  define j where "j = (seededRandom 126 - 1 / 2) * 2"
  define clat where "clat = 1 / 8 + (- 44 + j) / 111320"
  have jr: "- 1 \<le> j" "j < 1" using seededRandom_range[of 126] by (simp_all add: j_def)
  have c: "0 < clat" "clat < 1 / 8" using jr by (simp_all add: clat_def field_simps)
  have "0 < clat * pi / 180" using c(1) by simp
  moreover have "clat * pi / 180 < pi / 2"
  proof -
    have "clat * pi \<le> 1 * pi" using c(2) by (intro mult_right_mono) simp_all
    then show ?thesis using pi_gt_zero by (simp add: field_simps)
  qed
  ultimately have "0 < cos (clat * pi / 180)" by (intro cos_gt_zero_pi) linarith+
  moreover have "\<exists>clng. geoClump overlapPlot 1 12 0 =
       ClumpMound clng clat # map (geoPole 1 125 clat clng) [0..<12]"
    by (simp add: geoClump_def overlapPlot_def Let_def poleCountPerClump_1 clat_def j_def)
  ultimately show ?thesis by blast
qed

subsection \<open>C4: stalks that overlap\<close>

lemma twoPole_live_head:
  "\<exists>rest. initialExistingPositions (poles (fst (newBambooClump twoPoleStream))) =
     \<lparr>ep_x = 4 / 5, ep_z = 0, ep_radius = 576 / 3125\<rparr> # rest"
proof -
  let ?ps = "poles (fst (newBambooClump twoPoleStream))"
  obtain p rest where c: "?ps = p # rest"
    using twoPole_poles(3) by (cases ?ps) simp_all
  have p: "p = fst (makePole (4/5) 0 (3/25) (sdrop 4 twoPoleStream))"
    using twoPole_poles(1) unfolding c by simp
  have e: "existingPositionOf p = \<lparr>ep_x = 4 / 5, ep_z = 0, ep_radius = 576 / 3125\<rparr>"
    unfolding p existingPositionOf_def twoPole_radii(1) by simp
  have "\<not> isHarvested p" unfolding p by simp
  then show ?thesis unfolding c by (simp add: initialExistingPositions_def e)
qed

text \<open>
  Claim C4 does not hold of the code, in either renderer.

  In the schematic engine, on the draws \<open>twoPoleStream\<close> the constructor leaves two poles
  that are not harvested, 0.27 apart, whose bottom radii add up to 0.3072 and whose
  exclusion radii add up to 0.36864. Within the call that places them, the circle
  recorded for the first pole has the radius 1.2 times its thickness, 0.144, and against
  it the candidate at 1.07 with thickness 0.12 is accepted. The circle that every later
  call derives for the same pole has the radius 1.2 times its bottom radius, 0.18432,
  and against it the same candidate, from the same draws, is refused.

  In the geo-referenced renderer, which has no overlap test, the first 13 entities for
  the plot \<open>overlapPlot\<close> in the year 2035 are the mound and the 12 poles of one clump.
  The poles at the indices 2 and 8 are less than 0.12 metres apart, and their bottom
  radii add up to at least 0.24 metres.
\<close>

theorem stalks_overlap:
  "\<not> isHarvested (poles (fst (newBambooClump twoPoleStream)) ! 0)
   \<and> \<not> isHarvested (poles (fst (newBambooClump twoPoleStream)) ! 1)
   \<and> poleDistance (poles (fst (newBambooClump twoPoleStream)) ! 0)
        (poles (fst (newBambooClump twoPoleStream)) ! 1) = 27 / 100
   \<and> geometry_radiusBottom (mesh (poles (fst (newBambooClump twoPoleStream)) ! 0))
       + geometry_radiusBottom (mesh (poles (fst (newBambooClump twoPoleStream)) ! 1)) = 192 / 625
   \<and> exclusionRadius (poles (fst (newBambooClump twoPoleStream)) ! 0)
       + exclusionRadius (poles (fst (newBambooClump twoPoleStream)) ! 1) = 1152 / 3125
   \<and> ps_existing (placeOne \<lparr>ps_existing = [], ps_poles = [], ps_attempts = 0,
                               ps_rng = twoPoleStream\<rparr>)
       = [\<lparr>ep_x = 4 / 5, ep_z = 0, ep_radius = 18 / 125\<rparr>]
   \<and> fst (drawCandidate [\<lparr>ep_x = 4 / 5, ep_z = 0, ep_radius = 18 / 125\<rparr>]
            (sdrop 15 twoPoleStream))
       = \<lparr>validPosition = True, cand_x = 107 / 100, cand_z = 0, cand_thickness = 3 / 25\<rparr>
   \<and> hd (initialExistingPositions (poles (fst (newBambooClump twoPoleStream))))
       = \<lparr>ep_x = 4 / 5, ep_z = 0, ep_radius = 576 / 3125\<rparr>
   \<and> fst (drawCandidate (initialExistingPositions (poles (fst (newBambooClump twoPoleStream))))
            (sdrop 15 twoPoleStream))
       = \<lparr>validPosition = False, cand_x = 107 / 100, cand_z = 0, cand_thickness = 3 / 25\<rparr>
   \<and> take 13 (addBambooPlants overlapPlot 2035) = geoClump overlapPlot 1 12 0
   \<and> \<not> isPoleCylinder (addBambooPlants overlapPlot 2035 ! 0)
   \<and> isPoleCylinder (addBambooPlants overlapPlot 2035 ! 2)
   \<and> isPoleCylinder (addBambooPlants overlapPlot 2035 ! 8)
   \<and> geoDistance (addBambooPlants overlapPlot 2035 ! 0) (addBambooPlants overlapPlot 2035 ! 2)
        (addBambooPlants overlapPlot 2035 ! 8) < 3 / 25
   \<and> 6 / 25 \<le> entityBottomRadius (addBambooPlants overlapPlot 2035 ! 2)
        + entityBottomRadius (addBambooPlants overlapPlot 2035 ! 8)"
proof -
  let ?ps = "poles (fst (newBambooClump twoPoleStream))"
  let ?e = "\<lparr>ep_x = 4 / 5, ep_z = 0, ep_radius = 18 / 125\<rparr>"
  let ?e' = "\<lparr>ep_x = 4 / 5, ep_z = 0, ep_radius = 576 / 3125\<rparr>"
  have h: "\<not> isHarvested (?ps ! 0)" "\<not> isHarvested (?ps ! 1)"
    unfolding twoPole_poles by simp_all
  have d: "poleDistance (?ps ! 0) (?ps ! 1) = 27 / 100"
    unfolding twoPole_poles by (simp add: poleDistance_on_axis)
  have b: "geometry_radiusBottom (mesh (?ps ! 0)) + geometry_radiusBottom (mesh (?ps ! 1)) = 192 / 625"
    unfolding twoPole_poles twoPole_radii by simp
  have e: "exclusionRadius (?ps ! 0) + exclusionRadius (?ps ! 1) = 1152 / 3125"
  proof -
    have "exclusionRadius (?ps ! 0) + exclusionRadius (?ps ! 1) =
        (geometry_radiusBottom (mesh (?ps ! 0)) + geometry_radiusBottom (mesh (?ps ! 1))) * 1.2"
      by (simp add: exclusionRadius_def existingPositionOf_def algebra_simps)
    then show ?thesis unfolding b by simp
  qed
  have r: "ps_existing (placeOne \<lparr>ps_existing = [], ps_poles = [], ps_attempts = 0,
                               ps_rng = twoPoleStream\<rparr>) = [?e]"
    unfolding twoPole_first by simp
  have free: "\<not> tooClose (107 / 100) 0 (3 / 25) ?e"
    unfolding tooClose_on_axis by simp
  have a: "fst (drawCandidate [?e] (sdrop 15 twoPoleStream))
       = \<lparr>validPosition = True, cand_x = 107 / 100, cand_z = 0, cand_thickness = 3 / 25\<rparr>"
    using free
    by (simp add: drawCandidate_def Math_random_def Let_def twoPoleStream_def eval_nat_numeral)
  obtain rest where i: "initialExistingPositions ?ps = ?e' # rest"
    using twoPole_live_head by blast
  have close: "tooClose (107 / 100) 0 (3 / 25) ?e'"
    unfolding tooClose_on_axis by simp
  have s: "fst (drawCandidate (initialExistingPositions ?ps) (sdrop 15 twoPoleStream))
       = \<lparr>validPosition = False, cand_x = 107 / 100, cand_z = 0, cand_thickness = 3 / 25\<rparr>"
    unfolding i using close
    by (simp add: drawCandidate_def Math_random_def Let_def twoPoleStream_def eval_nat_numeral)
  have hd: "hd (initialExistingPositions ?ps) = ?e'" unfolding i by simp
  let ?es = "addBambooPlants overlapPlot 2035"
  obtain clat clng where c: "0 < cos (clat * pi / 180)"
    and g: "geoClump overlapPlot 1 12 0 = ClumpMound clng clat # map (geoPole 1 125 clat clng) [0..<12]"
    using overlapPlot_clump by blast
  have u: "[0..<144] = 0 # [1..<144]" by (simp add: upt_conv_Cons)
  have es: "?es = geoClump overlapPlot 1 12 0 @ concat (map (geoClump overlapPlot 1 12) [1..<144])"
    unfolding overlapPlot_entities u by simp
  have l: "length (geoClump overlapPlot 1 12 0) = 13" unfolding g by simp
  have t: "take 13 ?es = geoClump overlapPlot 1 12 0" unfolding es using l by simp
  have e0: "?es ! 0 = ClumpMound clng clat" unfolding es g by simp
  have e2: "?es ! 2 = geoPole 1 125 clat clng 1"
    unfolding es using l by (simp add: nth_append g)
  have e8: "?es ! 8 = geoPole 1 125 clat clng 7"
    unfolding es using l by (simp add: nth_append g)
  have s1: "seededRandom (125 + real 1 * 10) < 3 / 10" using seededRandom_135 by simp
  have s7: "seededRandom (125 + real 7 * 10) < 3 / 10" using seededRandom_195 by simp
  note p1 = geoPole_centre[OF s1, of 1 clat clng]
  note p7 = geoPole_centre[OF s7, of 1 clat clng]
  define r1 where "r1 = seededRandom 136 * (2 / 5)"
  define r7 where "r7 = seededRandom 196 * (2 / 5)"
  define a1 where "a1 = seededRandom 137 * pi * 2"
  define a7 where "a7 = seededRandom 197 * pi * 2"
  have gr: "0 \<le> r1" "0 \<le> r7" "r1 + r7 < 3 / 25"
    using seededRandom_range(1)[of 136] seededRandom_range(1)[of 196]
      seededRandom_136 seededRandom_196 by (simp_all add: r1_def r7_def)
  have m: "entityLat (?es ! 0) = clat" "entityLng (?es ! 0) = clng"
    "\<not> isPoleCylinder (?es ! 0)"
    unfolding e0 by (simp_all add: entityLat_def entityLng_def isPoleCylinder_def)
  have c0: "cos (entityLat (?es ! 0) * pi / 180) \<noteq> 0" unfolding m(1) using c by simp
  have la1: "entityLat (?es ! 2) = entityLat (?es ! 0) + sin a1 * r1 / 111320"
    unfolding m(1) e2 p1(2) by (simp add: a1_def r1_def)
  have la7: "entityLat (?es ! 8) = entityLat (?es ! 0) + sin a7 * r7 / 111320"
    unfolding m(1) e8 p7(2) by (simp add: a7_def r7_def)
  have ln1: "entityLng (?es ! 2) = entityLng (?es ! 0)
      + cos a1 * r1 / (111320 * cos (entityLat (?es ! 0) * pi / 180))"
    unfolding m(1,2) e2 p1(3) by (simp add: a1_def r1_def)
  have ln7: "entityLng (?es ! 8) = entityLng (?es ! 0)
      + cos a7 * r7 / (111320 * cos (entityLat (?es ! 0) * pi / 180))"
    unfolding m(1,2) e8 p7(3) by (simp add: a7_def r7_def)
  have gd: "geoDistance (?es ! 0) (?es ! 2) (?es ! 8)
      = sqrt ((cos a1 * r1 - cos a7 * r7) * (cos a1 * r1 - cos a7 * r7)
            + (sin a1 * r1 - sin a7 * r7) * (sin a1 * r1 - sin a7 * r7))"
    by (rule geoDistance_offsets[OF c0 la1 la7 ln1 ln7])
  have dist: "geoDistance (?es ! 0) (?es ! 2) (?es ! 8) < 3 / 25"
    unfolding gd using polar_distance[OF gr(1,2), of a1 a7] gr(3) by linarith
  have gb: "6 / 25 \<le> entityBottomRadius (?es ! 2) + entityBottomRadius (?es ! 8)"
    unfolding e2 e8 p1(4) p7(4)
    using seededRandom_range(1)[of "125 + real 1 * 10 + 4"]
      seededRandom_range(1)[of "125 + real 7 * 10 + 4"] by simp
  have i2: "isPoleCylinder (?es ! 2)" unfolding e2 by (rule p1(1))
  have i8: "isPoleCylinder (?es ! 8)" unfolding e8 by (rule p7(1))
  show ?thesis using h d b e r a hd s t m(3) i2 i8 dist gb by simp
qed

subsection \<open>C1: which inputs the layout depends on\<close>

text \<open>
  Claim C1, as amended, for the geo-referenced renderer. The entities that
  \<open>addBambooPlants\<close> adds, with the positions, heights, thicknesses and colours of the
  stalks, are the same for any two plots that agree in latitude, longitude and area, in
  the same year: every random quantity is \<open>seededRandom\<close> of a seed computed from the
  latitude and the longitude, and nothing else of the plot is read, its identifier
  included.
\<close>

theorem layout_deterministic:
  assumes "latitude p1 = latitude p2" and "longitude p1 = longitude p2"
    and "areaHectares p1 = areaHectares p2"
  shows "addBambooPlants p1 year = addBambooPlants p2 year"
proof -
  have "geoClump p1 = geoClump p2"
    using assms(1,2) by (intro ext) (simp add: geoClump_def)
  then show ?thesis using assms(3) by (simp add: addBambooPlants_def)
qed

theorem layout_deterministic_witness:
  "addBambooPlants \<lparr>plot_id = ''a'', name = ''north'', stewardId = None, projectId = None,
        latitude = 8, longitude = 124, areaHectares = 1, clumpCount = None,
        status = ''pending'', healthScore = None, carbonTons = None\<rparr> 2030
   = addBambooPlants \<lparr>plot_id = ''b'', name = ''south'', stewardId = Some ''s'', projectId = None,
        latitude = 8, longitude = 124, areaHectares = 1, clumpCount = Some 150,
        status = ''verified'', healthScore = Some 90, carbonTons = Some 2\<rparr> 2030"
  by (rule layout_deterministic) simp_all

text \<open>
  The schematic engine draws its layout from \<open>Math.random\<close>, and its constructor takes
  no identifier: two constructions that meet different draws place their first pole at
  different positions and with different radii.
\<close>

theorem layout_deterministic_counterexample:
  "position_x (mesh (poles (fst (newBambooClump (sconst 0))) ! 0)) = 0
   \<and> position_x (mesh (poles (fst (newBambooClump twoPoleStream)) ! 0)) = 4/5
   \<and> geometry_radiusBottom (mesh (poles (fst (newBambooClump (sconst 0))) ! 0)) = 33/500
   \<and> geometry_radiusBottom (mesh (poles (fst (newBambooClump twoPoleStream)) ! 0)) = 96/625"
proof -
  have a: "poles (fst (newBambooClump (sconst 0))) ! 0 = fst (makePole 0 0 0.06 (sconst 0))"
    by (simp add: newBambooClump_zero)
  show ?thesis
    unfolding a twoPole_poles twoPole_radii by simp
qed

end
